theory Spec2Isabelle
  imports Complex_Main
begin

section \<open>Data model (models/models.py)\<close>

text \<open>
  The two string enums of the source. The constructors carry a prefix because both enums
  have members called REFRIGERATED, FROZEN and HAZMAT.
\<close>

datatype SpecialConstraint = SC_NONE | SC_FRAGILE | SC_REFRIGERATED | SC_FROZEN | SC_HAZMAT | SC_HEAVY

datatype TruckType = TT_DRY | TT_REFRIGERATED | TT_FROZEN | TT_HAZMAT | TT_FLATBED

text \<open>
  A \<^verbatim>\<open>datetime.time\<close> value. The routing code reads only \<^verbatim>\<open>.hour\<close> and \<^verbatim>\<open>.minute\<close>;
  seconds and microseconds are never read and are left out. Python's ordering on times is
  lexicographic, so the hour of the least time of a list is the least hour either way.
\<close>

datatype pytime = Time (hour: nat) (minute: nat)

definition time_lt :: "pytime \<Rightarrow> pytime \<Rightarrow> bool" where
  "time_lt a b = (hour a < hour b \<or> (hour a = hour b \<and> minute a < minute b))"

text \<open>Minutes since midnight, written \<^verbatim>\<open>t.hour * 60 + t.minute\<close> throughout the source.\<close>

definition mins :: "pytime \<Rightarrow> int" where
  "mins t = int (hour t) * 60 + int (minute t)"

text \<open>
  Floats (distances, speeds, costs) are modelled as rationals: the claims below depend on
  comparisons and on truncation to an integer, not on rounding error. Latitude and longitude,
  which the router only copies from the geocoder into its output, are left out.
\<close>

record Stop =
  stop_id :: int
  address :: string
  time_window_start :: pytime
  time_window_end :: pytime
  pallets :: int
  special_constraint :: SpecialConstraint
  service_time_minutes :: int

record Truck =
  truck_id :: string
  depot_address :: string
  max_pallets :: int
  truck_type :: TruckType
  shift_start :: pytime
  shift_end :: pytime
  cost_per_mile :: rat
  avg_speed_mph :: rat

section \<open>Fleet generator (services/fleet\_generator.py)\<close>

record fleet_template =
  ft_count :: nat
  ft_capacity :: "int list"
  ft_types :: "TruckType list"

datatype template_size = Small | Medium | Large | Specialized

fun fleet_templates :: "template_size \<Rightarrow> fleet_template" where
  "fleet_templates Small =
     \<lparr>ft_count = 2, ft_capacity = [8, 10], ft_types = [TT_DRY, TT_REFRIGERATED]\<rparr>"
| "fleet_templates Medium =
     \<lparr>ft_count = 3, ft_capacity = [10, 8, 12],
      ft_types = [TT_DRY, TT_REFRIGERATED, TT_FLATBED]\<rparr>"
| "fleet_templates Large =
     \<lparr>ft_count = 4, ft_capacity = [10, 8, 12, 9],
      ft_types = [TT_DRY, TT_REFRIGERATED, TT_FLATBED, TT_FROZEN]\<rparr>"
| "fleet_templates Specialized =
     \<lparr>ft_count = 5, ft_capacity = [10, 8, 12, 9, 6],
      ft_types = [TT_DRY, TT_REFRIGERATED, TT_FLATBED, TT_FROZEN, TT_HAZMAT]\<rparr>"

definition default_depot :: string where
  "default_depot = ''1000 Distribution Center Dr, Atlanta, GA''"

text \<open>
  \<^verbatim>\<open>max(...)\<close> and \<^verbatim>\<open>min(...)\<close> over a non-empty sequence keep the first extremal element.
\<close>

fun py_max_int :: "int \<Rightarrow> int list \<Rightarrow> int" where
  "py_max_int m [] = m"
| "py_max_int m (x # xs) = py_max_int (if m < x then x else m) xs"

fun py_min_time :: "pytime \<Rightarrow> pytime list \<Rightarrow> pytime" where
  "py_min_time m [] = m"
| "py_min_time m (x # xs) = py_min_time (if time_lt x m then x else m) xs"

fun py_max_time :: "pytime \<Rightarrow> pytime list \<Rightarrow> pytime" where
  "py_max_time m [] = m"
| "py_max_time m (x # xs) = py_max_time (if time_lt m x then x else m) xs"

text \<open>
  \<^verbatim>\<open>_analyze_stop_requirements\<close>: of the dictionary it returns, \<^verbatim>\<open>generate_default_fleet\<close>
  reads \<^verbatim>\<open>max_pallets_per_stop\<close> and \<^verbatim>\<open>required_types\<close>.
\<close>

definition max_pallets_per_stop :: "Stop list \<Rightarrow> int" where
  "max_pallets_per_stop stops =
     (case map pallets stops of [] \<Rightarrow> 0 | p # ps \<Rightarrow> py_max_int p ps)"

definition required_types :: "Stop list \<Rightarrow> TruckType list" where
  "required_types stops =
     (let constraints_needed = {c \<in> set (map special_constraint stops). c \<noteq> SC_NONE} in
      [TT_DRY]
      @ (if SC_REFRIGERATED \<in> constraints_needed then [TT_REFRIGERATED] else [])
      @ (if SC_FROZEN \<in> constraints_needed then [TT_FROZEN] else [])
      @ (if SC_HAZMAT \<in> constraints_needed then [TT_HAZMAT] else [])
      @ (if SC_HEAVY \<in> constraints_needed then [TT_FLATBED] else []))"

text \<open>
  \<^verbatim>\<open>_determine_fleet_size\<close>: the four-way test on the stop count returns in every branch,
  so the adjustment for constraint diversity written after it is never reached.
\<close>

definition determine_fleet_size :: "Stop list \<Rightarrow> template_size" where
  "determine_fleet_size stops =
     (let stop_count = length stops in
      if stop_count \<le> 5 then Small
      else if stop_count \<le> 12 then Medium
      else if stop_count \<le> 20 then Large
      else Specialized)"

text \<open>\<^verbatim>\<open>_optimize_truck_types\<close>: the first loop appends each required type once.\<close>

fun add_required :: "TruckType list \<Rightarrow> TruckType list \<Rightarrow> TruckType list" where
  "add_required optimized [] = optimized"
| "add_required optimized (r # rs) =
     add_required (if r \<notin> set optimized then optimized @ [r] else optimized) rs"

text \<open>The inner \<^verbatim>\<open>for\<close> loop over the template's types, with its \<^verbatim>\<open>break\<close>.\<close>

fun fill_from_template :: "TruckType list \<Rightarrow> TruckType list \<Rightarrow> nat \<Rightarrow> TruckType list" where
  "fill_from_template optimized [] truck_count = optimized"
| "fill_from_template optimized (t # ts) truck_count =
     (if length optimized \<ge> truck_count then optimized
      else fill_from_template (if t \<notin> set optimized then optimized @ [t] else optimized)
             ts truck_count)"

lemma length_fill_from_template:
  "length optimized \<le> length (fill_from_template optimized ts n)"
proof (induction ts arbitrary: optimized)
  case Nil
  show ?case by simp
next
  case (Cons t ts)
  have "length optimized \<le> length (if t \<notin> set optimized then optimized @ [t] else optimized)"
    by simp
  also have "\<dots> \<le> length (fill_from_template
      (if t \<notin> set optimized then optimized @ [t] else optimized) ts n)"
    by (rule Cons.IH)
  finally show ?case by simp
qed

text \<open>The outer \<^verbatim>\<open>while len(optimized_types) < truck_count\<close> loop.\<close>

function fill_slots :: "TruckType list \<Rightarrow> TruckType list \<Rightarrow> nat \<Rightarrow> TruckType list" where
  "fill_slots optimized template_types truck_count =
     (if length optimized < truck_count then
        (let filled = fill_from_template optimized template_types truck_count in
         fill_slots (if length filled < truck_count then filled @ [TT_DRY] else filled)
           template_types truck_count)
      else optimized)"
  by pat_completeness auto
termination
proof (relation "measure (\<lambda>(optimized, template_types, truck_count). truck_count - length optimized)")
  show "wf (measure (\<lambda>(optimized, template_types, truck_count). truck_count - length optimized))"
    by simp
next
  fix optimized :: "TruckType list" and template_types truck_count filled
  assume lt: "length optimized < truck_count"
    and f: "filled = fill_from_template optimized template_types truck_count"
  have "length optimized \<le> length filled"
    unfolding f by (rule length_fill_from_template)
  with lt show "((if length filled < truck_count then filled @ [TT_DRY] else filled,
                  template_types, truck_count),
                 (optimized, template_types, truck_count))
          \<in> measure (\<lambda>(optimized, template_types, truck_count). truck_count - length optimized)"
    by auto
qed

definition optimize_truck_types :: "TruckType list \<Rightarrow> TruckType list \<Rightarrow> nat \<Rightarrow> TruckType list" where
  "optimize_truck_types required template_types truck_count =
     take truck_count (fill_slots (add_required [] required) template_types truck_count)"

text \<open>
  \<^verbatim>\<open>_determine_shift_start\<close>, \<^verbatim>\<open>_determine_shift_end\<close>, \<^verbatim>\<open>_determine_cost_per_mile\<close> and
  \<^verbatim>\<open>_determine_average_speed\<close> for \<^verbatim>\<open>constraints=None\<close>: every \<^verbatim>\<open>if constraints\<close> guard
  of the source is false there. The hours passed to \<^verbatim>\<open>time(h, 0)\<close> lie in 6..22 and
  1..18, so the constructor cannot raise.
\<close>

definition determine_shift_start :: "Stop list \<Rightarrow> pytime" where
  "determine_shift_start stops =
     (case map time_window_start stops of
        [] \<Rightarrow> Time 7 0
      | t # ts \<Rightarrow>
          (let earliest_delivery = py_min_time t ts;
               start_hour = max (int (hour earliest_delivery) - 1) 6
           in Time (nat start_hour) 0))"

definition determine_shift_end :: "Stop list \<Rightarrow> pytime" where
  "determine_shift_end stops =
     (case map time_window_end stops of
        [] \<Rightarrow> Time 15 0
      | t # ts \<Rightarrow>
          (let latest_delivery = py_max_time t ts;
               end_hour = min (hour latest_delivery + 1) 18
           in Time end_hour 0))"

fun determine_cost_per_mile :: "TruckType \<Rightarrow> rat" where
  "determine_cost_per_mile TT_DRY = 25 / 10"
| "determine_cost_per_mile TT_REFRIGERATED = 32 / 10"
| "determine_cost_per_mile TT_FROZEN = 38 / 10"
| "determine_cost_per_mile TT_HAZMAT = 45 / 10"
| "determine_cost_per_mile TT_FLATBED = 28 / 10"

definition determine_average_speed :: rat where
  "determine_average_speed = 45"

text \<open>
  \<^verbatim>\<open>generate_default_fleet(stops, constraints=None, depot_address)\<close>. The loop
  \<^verbatim>\<open>for i in range(len(truck_types))\<close> builds one truck per selected type;
  \<^verbatim>\<open>chr(65 + i)\<close> names them A, B, C, ...
\<close>

definition make_truck :: "Stop list \<Rightarrow> string \<Rightarrow> fleet_template \<Rightarrow> TruckType list \<Rightarrow> nat \<Rightarrow> Truck" where
  "make_truck stops depot template truck_types i =
     (let capacity = (if i < length (ft_capacity template) then ft_capacity template ! i else 10);
          capacity = (if max_pallets_per_stop stops > capacity
                      then min (max_pallets_per_stop stops + 2) 20 else capacity)
      in \<lparr>truck_id = [char_of (65 + i)],
          depot_address = depot,
          max_pallets = capacity,
          truck_type = truck_types ! i,
          shift_start = determine_shift_start stops,
          shift_end = determine_shift_end stops,
          cost_per_mile = determine_cost_per_mile (truck_types ! i),
          avg_speed_mph = determine_average_speed\<rparr>)"

definition generate_default_fleet :: "Stop list \<Rightarrow> string option \<Rightarrow> Truck list" where
  "generate_default_fleet stops depot_override =
     (let template = fleet_templates (determine_fleet_size stops);
          depot = (case depot_override of None \<Rightarrow> default_depot
                   | Some d \<Rightarrow> if d = [] then default_depot else d);
          truck_types = optimize_truck_types (required_types stops)
                          (ft_types template) (ft_count template)
      in map (make_truck stops depot template truck_types) [0 ..< length truck_types])"

section \<open>Fleet size\<close>

definition sample_stop :: Stop where
  "sample_stop =
     \<lparr>stop_id = 1, address = ''12 Elm St'', time_window_start = Time 8 0,
      time_window_end = Time 17 0, pallets = 3, special_constraint = SC_NONE,
      service_time_minutes = 15\<rparr>"

lemma length_fill_slots: "truck_count \<le> length (fill_slots optimized template_types truck_count)"
proof (induction optimized template_types truck_count rule: fill_slots.induct)
  case (1 optimized template_types truck_count)
  show ?case
  proof (cases "length optimized < truck_count")
    case True
    with "1.IH" [OF True refl] show ?thesis
      by (subst fill_slots.simps) (simp add: Let_def)
  next
    case False
    then show ?thesis
      by (subst fill_slots.simps) simp
  qed
qed

lemma length_optimize_truck_types:
  "length (optimize_truck_types required template_types truck_count) = truck_count"
  unfolding optimize_truck_types_def
  using length_fill_slots [of truck_count "add_required [] required" template_types]
  by simp

lemma length_generate_default_fleet:
  "length (generate_default_fleet stops depot_override) =
     ft_count (fleet_templates (determine_fleet_size stops))"
  by (simp add: generate_default_fleet_def Let_def length_optimize_truck_types)

text \<open>
  C6. Without constraints, \<^verbatim>\<open>generate_default_fleet\<close> returns exactly 2 trucks for a list of
  5 stops, 3 trucks for 6 stops, 4 trucks for 20 stops and 5 trucks for 21 stops.
\<close>

theorem generate_default_fleet_sizes:
  "(length stops = 5 \<longrightarrow> length (generate_default_fleet stops depot_override) = 2) \<and>
   (length stops = 6 \<longrightarrow> length (generate_default_fleet stops depot_override) = 3) \<and>
   (length stops = 20 \<longrightarrow> length (generate_default_fleet stops depot_override) = 4) \<and>
   (length stops = 21 \<longrightarrow> length (generate_default_fleet stops depot_override) = 5)"
  by (simp add: length_generate_default_fleet determine_fleet_size_def)

theorem generate_default_fleet_sizes_witness:
  "length (generate_default_fleet (replicate 5 sample_stop) None) = 2 \<and>
   length (generate_default_fleet (replicate 6 sample_stop) None) = 3 \<and>
   length (generate_default_fleet (replicate 20 sample_stop) None) = 4 \<and>
   length (generate_default_fleet (replicate 21 sample_stop) None) = 5"
  using generate_default_fleet_sizes [of "replicate 5 sample_stop" None]
    generate_default_fleet_sizes [of "replicate 6 sample_stop" None]
    generate_default_fleet_sizes [of "replicate 20 sample_stop" None]
    generate_default_fleet_sizes [of "replicate 21 sample_stop" None]
  by simp

section \<open>Rate limiter (saas/middleware/rate\_limiting.py)\<close>

text \<open>
  The limiter keeps, per identifier, the clock readings of the admitted requests: in the
  class-level dictionary \<^verbatim>\<open>_memory_store\<close> when no shared cache is connected
  (\<^verbatim>\<open>redis_client\<close> is \<^verbatim>\<open>None\<close>), in a sorted set of the shared cache otherwise. The clock
  \<^verbatim>\<open>time.time()\<close> is an argument of the model. A sorted set maps members to scores; the
  code adds the member \<^verbatim>\<open>str(now)\<close> with score \<^verbatim>\<open>now\<close>, so the set is a duplicate-free
  list of readings, and the key \<^verbatim>\<open>rate_limit:<identifier>\<close> is the identifier. The
  key's expiry after \<^verbatim>\<open>window + 1\<close> seconds removes only readings that the next call
  would remove itself. A cache that stops answering between two calls (the fail-open branch
  of \<^verbatim>\<open>check_rate_limit\<close>) is outside the model.
\<close>

record rate_info =
  ri_limit :: int
  ri_remaining :: int
  ri_reset_time :: rat
  ri_window_duration :: int

record RateLimiter =
  redis_client :: "(string \<Rightarrow> rat list option) option"
  memory_store :: "string \<Rightarrow> rat list option"

definition default_limits :: "string \<Rightarrow> int option" where
  "default_limits =
     [''free'' \<mapsto> 10, ''starter'' \<mapsto> 60, ''professional'' \<mapsto> 300,
      ''enterprise'' \<mapsto> 1000, ''admin'' \<mapsto> 10000]"

definition window_duration :: int where
  "window_duration = 60"

definition get_rate_limit :: "string \<Rightarrow> int option \<Rightarrow> int" where
  "get_rate_limit tier override =
     (case override of
        Some v \<Rightarrow> if v \<noteq> 0 then v
                  else (case default_limits tier of Some l \<Rightarrow> l | None \<Rightarrow> the (default_limits ''free''))
      | None \<Rightarrow> (case default_limits tier of Some l \<Rightarrow> l | None \<Rightarrow> the (default_limits ''free'')))"

definition memory_rate_limit ::
  "(string \<Rightarrow> rat list option) \<Rightarrow> rat \<Rightarrow> string \<Rightarrow> int \<Rightarrow> int
     \<Rightarrow> (bool \<times> rate_info) \<times> (string \<Rightarrow> rat list option)" where
  "memory_rate_limit store now identifier limit window =
     (let requests = (case store identifier of None \<Rightarrow> [] | Some rs \<Rightarrow> rs);
          kept = filter (\<lambda>req_time. req_time > now - of_int window) requests;
          current_count = int (length kept);
          allowed = current_count < limit
      in if allowed
         then ((True, \<lparr>ri_limit = limit, ri_remaining = limit - current_count - 1,
                       ri_reset_time = now + of_int window, ri_window_duration = window\<rparr>),
               store(identifier \<mapsto> kept @ [now]))
         else ((False, \<lparr>ri_limit = limit, ri_remaining = 0,
                        ri_reset_time = now + of_int window, ri_window_duration = window\<rparr>),
               store(identifier \<mapsto> kept)))"

definition redis_rate_limit ::
  "(string \<Rightarrow> rat list option) \<Rightarrow> rat \<Rightarrow> string \<Rightarrow> int \<Rightarrow> int
     \<Rightarrow> (bool \<times> rate_info) \<times> (string \<Rightarrow> rat list option)" where
  "redis_rate_limit redis now identifier limit window =
     (let members = (case redis identifier of None \<Rightarrow> [] | Some ms \<Rightarrow> ms);
          after_rem = filter (\<lambda>score. \<not> (0 \<le> score \<and> score \<le> now - of_int window)) members;
          current_count = int (length after_rem);
          after_add = (if now \<in> set after_rem then after_rem else after_rem @ [now]);
          remaining = max 0 (limit - current_count - 1);
          allowed = current_count < limit;
          rate_info = \<lparr>ri_limit = limit, ri_remaining = remaining,
                       ri_reset_time = now + of_int window, ri_window_duration = window\<rparr>
      in if \<not> allowed
         then ((allowed, rate_info), redis(identifier \<mapsto> removeAll now after_add))
         else ((allowed, rate_info), redis(identifier \<mapsto> after_add)))"

definition check_rate_limit ::
  "RateLimiter \<Rightarrow> rat \<Rightarrow> string \<Rightarrow> string \<Rightarrow> int option \<Rightarrow> int option
     \<Rightarrow> (bool \<times> rate_info) \<times> RateLimiter" where
  "check_rate_limit s now identifier tier override window_override =
     (let limit = get_rate_limit tier override;
          window = (case window_override of
                      Some w \<Rightarrow> if w \<noteq> 0 then w else window_duration
                    | None \<Rightarrow> window_duration)
      in case redis_client s of
           None \<Rightarrow>
             (let (r, store) = memory_rate_limit (memory_store s) now identifier limit window
              in (r, s\<lparr>memory_store := store\<rparr>))
         | Some redis \<Rightarrow>
             (let (r, redis') = redis_rate_limit redis now identifier limit window
              in (r, s\<lparr>redis_client := Some redis'\<rparr>)))"

fun check_many :: "RateLimiter \<Rightarrow> string \<Rightarrow> string \<Rightarrow> rat list \<Rightarrow> (bool \<times> int) list \<times> RateLimiter" where
  "check_many s identifier tier [] = ([], s)"
| "check_many s identifier tier (now # rest) =
     (let (r, s') = check_rate_limit s now identifier tier None None;
          (rs, s'') = check_many s' identifier tier rest
      in ((fst r, ri_remaining (snd r)) # rs, s''))"

definition prior_requests :: "RateLimiter \<Rightarrow> string \<Rightarrow> rat list" where
  "prior_requests s identifier =
     (case redis_client s of
        None \<Rightarrow> (case memory_store s identifier of None \<Rightarrow> [] | Some rs \<Rightarrow> rs)
      | Some redis \<Rightarrow> (case redis identifier of None \<Rightarrow> [] | Some ms \<Rightarrow> ms))"

section \<open>Rate limiting inside one window\<close>

lemma get_rate_limit_free: "get_rate_limit ''free'' None = 10"
  by (simp add: get_rate_limit_def default_limits_def)

lemma check_step:
  assumes fresh: "now \<notin> set (prior_requests s identifier)"
    and nonneg: "\<forall>x \<in> set (prior_requests s identifier). 0 \<le> x"
  defines "kept \<equiv> filter (\<lambda>x. x > now - 60) (prior_requests s identifier)"
  shows "fst (fst (check_rate_limit s now identifier ''free'' None None)) = (length kept < 10)"
    and "ri_remaining (snd (fst (check_rate_limit s now identifier ''free'' None None)))
           = (if length kept < 10 then 9 - int (length kept) else 0)"
    and "prior_requests (snd (check_rate_limit s now identifier ''free'' None None)) identifier
           = (if length kept < 10 then kept @ [now] else kept)"
proof -
  let ?P = "prior_requests s identifier"
  have filt: "filter (\<lambda>score. \<not> (0 \<le> score \<and> score \<le> now - 60)) ?P = kept"
    unfolding kept_def using nonneg by (intro filter_cong) auto
  have notin: "now \<notin> set kept"
    using fresh by (simp add: kept_def)
  show "fst (fst (check_rate_limit s now identifier ''free'' None None)) = (length kept < 10)"
    using filt notin
    by (cases "redis_client s")
       (auto simp: check_rate_limit_def get_rate_limit_free window_duration_def Let_def
          memory_rate_limit_def redis_rate_limit_def prior_requests_def kept_def split: option.splits)
  show "ri_remaining (snd (fst (check_rate_limit s now identifier ''free'' None None)))
           = (if length kept < 10 then 9 - int (length kept) else 0)"
    using filt notin
    by (cases "redis_client s")
       (auto simp: check_rate_limit_def get_rate_limit_free window_duration_def Let_def
          memory_rate_limit_def redis_rate_limit_def prior_requests_def kept_def split: option.splits)
  show "prior_requests (snd (check_rate_limit s now identifier ''free'' None None)) identifier
           = (if length kept < 10 then kept @ [now] else kept)"
    using filt notin
    by (cases "redis_client s")
       (auto simp: check_rate_limit_def get_rate_limit_free window_duration_def Let_def
          memory_rate_limit_def redis_rate_limit_def prior_requests_def kept_def split: option.splits)
qed


lemma check_many_admitted:
  assumes "sorted_wrt (<) ts"
    and "\<forall>x \<in> set pre. \<forall>t \<in> set ts. x < t"
    and "\<forall>x \<in> set (pre @ ts). 0 \<le> x \<and> T - 60 < x"
    and "\<forall>t \<in> set ts. t \<le> T"
    and "prior_requests s identifier = pre"
    and "length pre + length ts \<le> 10"
  shows "fst (check_many s identifier ''free'' ts)
           = map (\<lambda>j. (True, 9 - int j)) [length pre ..< length pre + length ts]
         \<and> prior_requests (snd (check_many s identifier ''free'' ts)) identifier = pre @ ts"
  using assms
proof (induction ts arbitrary: pre s)
  case Nil
  then show ?case by simp
next
  case (Cons t rest)
  let ?r = "check_rate_limit s t identifier ''free'' None None"
  have kept: "filter (\<lambda>x. x > t - 60) (prior_requests s identifier) = pre"
  proof -
    have "t \<le> T" using Cons.prems(4) by simp
    moreover have "\<forall>x \<in> set pre. T - 60 < x" using Cons.prems(3) by simp
    ultimately have "\<forall>x \<in> set pre. t - 60 < x" by fastforce
    then show ?thesis using Cons.prems(5) by (simp add: filter_id_conv)
  qed
  have fresh: "t \<notin> set (prior_requests s identifier)"
    using Cons.prems(2,5) by auto
  have nonneg: "\<forall>x \<in> set (prior_requests s identifier). 0 \<le> x"
    using Cons.prems(3,5) by auto
  have len: "length pre < 10"
    using Cons.prems(6) by simp
  have a: "fst (fst ?r) = True"
    using check_step(1) [OF fresh nonneg] kept len by simp
  have b: "ri_remaining (snd (fst ?r)) = 9 - int (length pre)"
    using check_step(2) [OF fresh nonneg] kept len by simp
  have c: "prior_requests (snd ?r) identifier = pre @ [t]"
    using check_step(3) [OF fresh nonneg] kept len by simp
  have ih: "fst (check_many (snd ?r) identifier ''free'' rest)
           = map (\<lambda>j. (True, 9 - int j)) [length (pre @ [t]) ..< length (pre @ [t]) + length rest]
         \<and> prior_requests (snd (check_many (snd ?r) identifier ''free'' rest)) identifier
           = (pre @ [t]) @ rest"
  proof (rule Cons.IH)
    show "sorted_wrt (<) rest" using Cons.prems(1) by simp
    show "\<forall>x \<in> set (pre @ [t]). \<forall>u \<in> set rest. x < u"
      using Cons.prems(1,2) by auto
    show "\<forall>x \<in> set ((pre @ [t]) @ rest). 0 \<le> x \<and> T - 60 < x"
      using Cons.prems(3) by auto
    show "\<forall>u \<in> set rest. u \<le> T" using Cons.prems(4) by simp
    show "prior_requests (snd ?r) identifier = pre @ [t]" by (rule c)
    show "length (pre @ [t]) + length rest \<le> 10" using Cons.prems(6) by simp
  qed
  have upt: "[length pre ..< length pre + length (t # rest)]
               = length pre # [length (pre @ [t]) ..< length (pre @ [t]) + length rest]"
  proof -
    have "length pre < length pre + length (t # rest)" by simp
    then have "[length pre ..< length pre + length (t # rest)]
                 = length pre # [Suc (length pre) ..< length pre + length (t # rest)]"
      by (rule upt_conv_Cons)
    then show ?thesis by simp
  qed
  show ?case
    unfolding upt using a b ih by (simp add: split_beta Let_def)
qed

text \<open>
  C8. For an identifier of tier \<^verbatim>\<open>free\<close> (limit 10, window 60 seconds) without prior requests,
  ten consecutive checks at strictly increasing, non-negative clock readings are admitted with
  remaining counts 9, 8, ..., 0; the eleventh check, at a later reading less than 60 seconds
  after the first, is rejected with remaining 0; a check at a still later reading, 60 seconds
  or more after the first, is admitted. The statement covers both stores, the in-memory one
  and the shared cache. The clock readings have to differ: in the shared cache the member of
  the sorted set is the text of the reading, so checks at one and the same reading share a
  single entry and are all admitted.
\<close>

theorem rate_limit_window:
  assumes "sorted_wrt (<) (ts @ [t11])"
    and "length ts = 10"
    and "0 \<le> hd ts"
    and "t11 < hd ts + 60"
    and "prior_requests s identifier = []"
    and "hd ts + 60 \<le> t" and "t11 < t"
  shows "fst (check_many s identifier ''free'' ts)
           = [(True, 9), (True, 8), (True, 7), (True, 6), (True, 5),
              (True, 4), (True, 3), (True, 2), (True, 1), (True, 0)]
       \<and> (let s10 = snd (check_many s identifier ''free'' ts);
              r11 = fst (check_rate_limit s10 t11 identifier ''free'' None None)
          in fst r11 = False \<and> ri_remaining (snd r11) = 0)
       \<and> (let s10 = snd (check_many s identifier ''free'' ts);
              s11 = snd (check_rate_limit s10 t11 identifier ''free'' None None)
          in fst (fst (check_rate_limit s11 t identifier ''free'' None None)) = True)"
proof -
  obtain t1 rest where ts: "ts = t1 # rest"
    using assms(2) by (cases ts) auto
  have sorted: "sorted_wrt (<) ts" and below: "\<forall>u \<in> set ts. u < t11"
    using assms(1) by (auto simp: sorted_wrt_append)
  have lower: "\<forall>u \<in> set ts. t1 \<le> u"
    using sorted ts by auto
  have run: "fst (check_many s identifier ''free'' ts)
           = map (\<lambda>j. (True, 9 - int j)) [length ([]::rat list) ..< length ([]::rat list) + length ts]
         \<and> prior_requests (snd (check_many s identifier ''free'' ts)) identifier = [] @ ts"
  proof (rule check_many_admitted [where T = t11])
    show "sorted_wrt (<) ts" by (rule sorted)
    show "\<forall>x \<in> set []. \<forall>t \<in> set ts. x < t" by simp
    show "\<forall>x \<in> set ([] @ ts). 0 \<le> x \<and> t11 - 60 < x"
      using lower assms(3,4) ts by fastforce
    show "\<forall>u \<in> set ts. u \<le> t11" using below by auto
    show "prior_requests s identifier = []" by (rule assms(5))
    show "length ([]::rat list) + length ts \<le> 10" using assms(2) by simp
  qed
  let ?s10 = "snd (check_many s identifier ''free'' ts)"
  have p10: "prior_requests ?s10 identifier = ts" using run by simp
  have upt10: "[0 ..< 10] = [0, 1, 2, 3, 4, 5, 6, 7, 8, 9::nat]"
    by (simp add: upt_rec)
  have first: "fst (check_many s identifier ''free'' ts)
           = [(True, 9), (True, 8), (True, 7), (True, 6), (True, 5),
              (True, 4), (True, 3), (True, 2), (True, 1), (True, 0)]"
    using run assms(2) upt10 by simp
  have fresh11: "t11 \<notin> set (prior_requests ?s10 identifier)"
    using below p10 by auto
  have nonneg11: "\<forall>x \<in> set (prior_requests ?s10 identifier). 0 \<le> x"
    using lower assms(3) ts p10 by fastforce
  have kept11: "filter (\<lambda>x. x > t11 - 60) (prior_requests ?s10 identifier) = ts"
    using lower assms(4) ts p10 by (fastforce simp: filter_id_conv)
  let ?c11 = "check_rate_limit ?s10 t11 identifier ''free'' None None"
  have r11: "fst (fst ?c11) = False" "ri_remaining (snd (fst ?c11)) = 0"
    and p11: "prior_requests (snd ?c11) identifier = ts"
    using check_step [OF fresh11 nonneg11] kept11 assms(2) by simp_all
  have second: "(let s10 = snd (check_many s identifier ''free'' ts);
              r11 = fst (check_rate_limit s10 t11 identifier ''free'' None None)
          in fst r11 = False \<and> ri_remaining (snd r11) = 0)"
    using r11 by (simp add: Let_def)
  have fresh: "t \<notin> set (prior_requests (snd ?c11) identifier)"
    using below assms(7) p11 by auto
  have nonneg: "\<forall>x \<in> set (prior_requests (snd ?c11) identifier). 0 \<le> x"
    using nonneg11 p10 p11 by simp
  have "length (filter (\<lambda>x. x > t - 60) ts) \<le> length rest"
    using assms(6) ts by (simp add: ts)
  then have "length (filter (\<lambda>x. x > t - 60) (prior_requests (snd ?c11) identifier)) < 10"
    using assms(2) ts p11 by simp
  then have "fst (fst (check_rate_limit (snd ?c11) t identifier ''free'' None None)) = True"
    using check_step(1) [OF fresh nonneg] by simp
  then have third: "(let s10 = snd (check_many s identifier ''free'' ts);
              s11 = snd (check_rate_limit s10 t11 identifier ''free'' None None)
          in fst (fst (check_rate_limit s11 t identifier ''free'' None None)) = True)"
    by (simp add: Let_def)
  from first second third show ?thesis by blast
qed

theorem rate_limit_window_witness:
  "(let s = \<lparr>redis_client = None, memory_store = Map.empty\<rparr>;
        ts = [1, 2, 3, 4, 5, 6, 7, 8, 9, 10]
    in sorted_wrt (<) (ts @ [11]) \<and> length ts = 10 \<and> 0 \<le> hd ts \<and> 11 < hd ts + 60 \<and>
       prior_requests s ''user-1'' = [] \<and> hd ts + 60 \<le> 61 \<and>
       fst (check_many s ''user-1'' ''free'' ts)
         = [(True, 9), (True, 8), (True, 7), (True, 6), (True, 5),
            (True, 4), (True, 3), (True, 2), (True, 1), (True, 0)] \<and>
       fst (fst (check_rate_limit (snd (check_many s ''user-1'' ''free'' ts)) 11
                   ''user-1'' ''free'' None None)) = False \<and>
       fst (fst (check_rate_limit
                   (snd (check_rate_limit (snd (check_many s ''user-1'' ''free'' ts)) 11
                           ''user-1'' ''free'' None None))
                   61 ''user-1'' ''free'' None None)) = True)"
  using rate_limit_window [of "[1, 2, 3, 4, 5, 6, 7, 8, 9, 10]" 11
      "\<lparr>redis_client = None, memory_store = Map.empty\<rparr>" "''user-1''" 61]
  by (simp add: prior_requests_def Let_def)

text \<open>
  Twelve checks at the same clock reading against the shared cache: all are admitted, and the
  remaining count stays at 8 from the second check on.
\<close>

theorem equal_readings_share_one_entry:
  "fst (check_many \<lparr>redis_client = Some Map.empty, memory_store = Map.empty\<rparr> ''user-1'' ''free''
          [5, 5, 5, 5, 5, 5, 5, 5, 5, 5, 5, 5])
     = [(True, 9), (True, 8), (True, 8), (True, 8), (True, 8), (True, 8),
        (True, 8), (True, 8), (True, 8), (True, 8), (True, 8), (True, 8)]"
  by code_simp

section \<open>Routes (models/models.py)\<close>

text \<open>Exceptions of the source are values: a function that can raise returns a sum.\<close>

datatype py_error =
  ZeroDivisionError | ValueError | TypeError | KeyError | IndexError | AttributeError
  | OverflowError

text \<open>
  A \<^verbatim>\<open>RouteStop\<close>: \<^verbatim>\<open>arrival_time\<close> is a \<^verbatim>\<open>datetime\<close> on the day of the request, kept here
  as its time of day; \<^verbatim>\<open>departure_time\<close> is the arrival plus the service time, kept in
  minutes since midnight of that day. \<^verbatim>\<open>eta\<close> and \<^verbatim>\<open>estimated_arrival\<close> are the arrival
  formatted as text, and the two window fields are the stop's window formatted as text; the
  coordinates, the \<^verbatim>\<open>reasoning\<close> text and the depot fields of a \<^verbatim>\<open>TruckRoute\<close> are copies
  or formatted text as well and are left out.
\<close>

record RouteStop =
  rs_stop_id :: int
  arrival_time :: pytime
  departure_mins :: int
  distance_from_previous :: rat
  rs_notes :: string
  rs_address :: string
  rs_pallets :: "int option"
  rs_time_window_start :: pytime
  rs_time_window_end :: pytime

record TruckRoute =
  tr_truck_id :: string
  tr_stops :: "RouteStop list"
  total_miles :: rat
  total_time_hours :: rat
  fuel_estimate :: rat
  utilization_percent :: rat

text \<open>
  The table \<^verbatim>\<open>compatibility_rules\<close>, written out once in \<^verbatim>\<open>RoutingEngine.__init__\<close> and
  once more in \<^verbatim>\<open>_is_truck_compatible_with_stop\<close> with the same entries.
\<close>

fun compatibility_rules :: "TruckType \<Rightarrow> SpecialConstraint list" where
  "compatibility_rules TT_DRY = [SC_NONE, SC_FRAGILE, SC_HEAVY]"
| "compatibility_rules TT_REFRIGERATED = [SC_NONE, SC_REFRIGERATED, SC_FRAGILE]"
| "compatibility_rules TT_FROZEN = [SC_NONE, SC_FROZEN, SC_REFRIGERATED]"
| "compatibility_rules TT_HAZMAT = [SC_HAZMAT]"
| "compatibility_rules TT_FLATBED = [SC_HEAVY, SC_NONE]"

section \<open>Choosing a truck for an added stop (app/main.py)\<close>

definition is_truck_compatible_with_stop :: "Truck \<Rightarrow> Stop \<Rightarrow> bool" where
  "is_truck_compatible_with_stop truck stop =
     (special_constraint stop \<in> set (compatibility_rules (truck_type truck)))"

text \<open>
  The score computed inside \<^verbatim>\<open>_find_best_truck_for_new_stop\<close>. The division by
  \<^verbatim>\<open>truck.max_pallets\<close> raises for a capacity of zero; the loop below tests that first.
\<close>

definition route_score :: "Truck \<Rightarrow> TruckRoute \<Rightarrow> int \<Rightarrow> rat" where
  "route_score truck current_route remaining_capacity =
     (let utilization_score = (utilization_percent current_route / 100) * (3 / 10);
          capacity_score = (of_int remaining_capacity / of_int (max_pallets truck)) * (4 / 10);
          route_efficiency_score = (1 - min (total_time_hours current_route / 8) 1) * (3 / 10)
      in utilization_score + capacity_score + route_efficiency_score)"

text \<open>
  The loop over the trucks. \<^verbatim>\<open>current_pallets\<close> sums over a comprehension whose source is
  the empty list literal, as in the source; \<^verbatim>\<open>break\<close> is the return in the branch of a
  truck without a route.
\<close>

fun find_best_loop ::
  "Stop \<Rightarrow> TruckRoute list \<Rightarrow> Truck list \<Rightarrow> string option \<Rightarrow> rat \<Rightarrow> py_error + string option" where
  "find_best_loop new_stop original_routes [] best_truck best_score = Inr best_truck"
| "find_best_loop new_stop original_routes (truck # trucks) best_truck best_score =
     (if \<not> is_truck_compatible_with_stop truck new_stop
      then find_best_loop new_stop original_routes trucks best_truck best_score
      else case find (\<lambda>r. tr_truck_id r = truck_id truck) original_routes of
        Some current_route \<Rightarrow>
          (let current_pallets = sum_list (map pallets (filter (\<lambda>s. stop_id s \<in> set (map rs_stop_id (tr_stops current_route))) ([] :: Stop list)));
               remaining_capacity = max_pallets truck - current_pallets
           in if remaining_capacity \<ge> pallets new_stop
              then if max_pallets truck = 0 then Inl ZeroDivisionError
                   else (let total_score = route_score truck current_route remaining_capacity
                         in if total_score > best_score
                            then find_best_loop new_stop original_routes trucks
                                   (Some (truck_id truck)) total_score
                            else find_best_loop new_stop original_routes trucks
                                   best_truck best_score)
              else find_best_loop new_stop original_routes trucks best_truck best_score)
      | None \<Rightarrow>
          (if max_pallets truck \<ge> pallets new_stop then Inr (Some (truck_id truck))
           else find_best_loop new_stop original_routes trucks best_truck best_score))"

definition find_best_truck_for_new_stop ::
  "Stop \<Rightarrow> Truck list \<Rightarrow> TruckRoute list \<Rightarrow> py_error + string option" where
  "find_best_truck_for_new_stop new_stop trucks original_routes =
     find_best_loop new_stop original_routes trucks None 0"

text \<open>
  The selection as the specification words it: the remaining capacity of a truck is its
  capacity less the pallets on the stops of its current route. It differs from the loop above
  in \<^verbatim>\<open>current_pallets\<close> only.
\<close>

definition assigned_pallets :: "TruckRoute \<Rightarrow> int" where
  "assigned_pallets route =
     sum_list (map (\<lambda>rs. case rs_pallets rs of None \<Rightarrow> 0 | Some p \<Rightarrow> p) (tr_stops route))"

fun stated_best_loop ::
  "Stop \<Rightarrow> TruckRoute list \<Rightarrow> Truck list \<Rightarrow> string option \<Rightarrow> rat \<Rightarrow> py_error + string option" where
  "stated_best_loop new_stop original_routes [] best_truck best_score = Inr best_truck"
| "stated_best_loop new_stop original_routes (truck # trucks) best_truck best_score =
     (if \<not> is_truck_compatible_with_stop truck new_stop
      then stated_best_loop new_stop original_routes trucks best_truck best_score
      else case find (\<lambda>r. tr_truck_id r = truck_id truck) original_routes of
        Some current_route \<Rightarrow>
          (let current_pallets = assigned_pallets current_route;
               remaining_capacity = max_pallets truck - current_pallets
           in if remaining_capacity \<ge> pallets new_stop
              then if max_pallets truck = 0 then Inl ZeroDivisionError
                   else (let total_score = route_score truck current_route remaining_capacity
                         in if total_score > best_score
                            then stated_best_loop new_stop original_routes trucks
                                   (Some (truck_id truck)) total_score
                            else stated_best_loop new_stop original_routes trucks
                                   best_truck best_score)
              else stated_best_loop new_stop original_routes trucks best_truck best_score)
      | None \<Rightarrow>
          (if max_pallets truck \<ge> pallets new_stop then Inr (Some (truck_id truck))
           else stated_best_loop new_stop original_routes trucks best_truck best_score))"

section \<open>An added stop and a fully loaded truck\<close>

definition dry_truck :: "string \<Rightarrow> Truck" where
  "dry_truck tid =
     \<lparr>truck_id = tid, depot_address = ''Depot'', max_pallets = 10, truck_type = TT_DRY,
      shift_start = Time 8 0, shift_end = Time 17 0, cost_per_mile = 5 / 2, avg_speed_mph = 45\<rparr>"

definition loaded_stop :: "int \<Rightarrow> int \<Rightarrow> RouteStop" where
  "loaded_stop sid p =
     \<lparr>rs_stop_id = sid, arrival_time = Time 9 0, departure_mins = 555,
      distance_from_previous = 10, rs_notes = ''Standard delivery'', rs_address = ''1 Oak Ave'',
      rs_pallets = Some p, rs_time_window_start = Time 8 0, rs_time_window_end = Time 17 0\<rparr>"

definition full_route :: TruckRoute where
  "full_route =
     \<lparr>tr_truck_id = ''A'', tr_stops = [loaded_stop 1 10], total_miles = 20,
      total_time_hours = 4, fuel_estimate = 50, utilization_percent = 100\<rparr>"

definition light_route :: TruckRoute where
  "light_route =
     \<lparr>tr_truck_id = ''B'', tr_stops = [loaded_stop 2 2], total_miles = 20,
      total_time_hours = 4, fuel_estimate = 50, utilization_percent = 20\<rparr>"

text \<open>
  C5. The claim says the remaining capacity in the score is computed from the pallets already
  on the truck's route. The code computes it from no pallets at all: with truck A carrying
  10 of 10 pallets and truck B carrying 2 of 10, a new stop of 3 pallets goes to the full
  truck A, where the selection as stated picks B.
\<close>

theorem find_best_truck_ignores_route_load:
  "find_best_truck_for_new_stop (sample_stop\<lparr>stop_id := 3\<rparr>)
     [dry_truck ''A'', dry_truck ''B''] [full_route, light_route] = Inr (Some ''A'') \<and>
   stated_best_loop (sample_stop\<lparr>stop_id := 3\<rparr>) [full_route, light_route]
     [dry_truck ''A'', dry_truck ''B''] None 0 = Inr (Some ''B'')"
  by (simp add: find_best_truck_for_new_stop_def sample_stop_def dry_truck_def full_route_def
        light_route_def loaded_stop_def is_truck_compatible_with_stop_def route_score_def
        assigned_pallets_def Let_def)

section \<open>Routing engine (services/routing\_engine.py)\<close>

text \<open>
  The keys of the distance matrix are the texts \<^verbatim>\<open>depot_<truck_id>\<close> and \<^verbatim>\<open>stop_<stop_id>\<close>;
  they are a datatype here. The matrix is computed from the geocoder's answers and is an
  argument of the model: a pair that is missing from it reads as 50 miles.
\<close>

datatype location = Depot string | StopLoc int

type_synonym distance_matrix = "location \<times> location \<Rightarrow> rat option"

definition dm_get :: "distance_matrix \<Rightarrow> location \<Rightarrow> location \<Rightarrow> rat" where
  "dm_get dm a b = (case dm (a, b) of None \<Rightarrow> 50 | Some d \<Rightarrow> d)"

text \<open>\<^verbatim>\<open>int(x)\<close> on a float truncates towards zero; \<^verbatim>\<open>round(x, n)\<close> rounds half to even.\<close>

definition py_int :: "rat \<Rightarrow> int" where
  "py_int x = (if x \<ge> 0 then \<lfloor>x\<rfloor> else \<lceil>x\<rceil>)"

definition py_round :: "nat \<Rightarrow> rat \<Rightarrow> rat" where
  "py_round ndigits x =
     (let y = x * 10 ^ ndigits; f = \<lfloor>y\<rfloor>; r = y - of_int f;
          n = (if r < 1 / 2 then f else if r > 1 / 2 then f + 1
               else if even f then f else f + 1)
      in of_int n / 10 ^ ndigits)"

text \<open>The constructor \<^verbatim>\<open>time(h, m)\<close> raises \<^verbatim>\<open>ValueError\<close> outside 0..23 and 0..59.\<close>

definition mk_time :: "int \<Rightarrow> int \<Rightarrow> py_error + pytime" where
  "mk_time h m =
     (if 0 \<le> h \<and> h \<le> 23 \<and> 0 \<le> m \<and> m \<le> 59 then Inr (Time (nat h) (nat m))
      else Inl ValueError)"

text \<open>\<^verbatim>\<open>_get_stop_notes\<close>, with \<^verbatim>\<open>"; ".join(notes)\<close>.\<close>

fun join_notes :: "string list \<Rightarrow> string" where
  "join_notes [] = []"
| "join_notes [n] = n"
| "join_notes (n # ns) = n @ ''; '' @ join_notes ns"

definition get_stop_notes :: "Stop \<Rightarrow> nat \<Rightarrow> string" where
  "get_stop_notes stop position =
     (let notes1 =
            (if position = 1 \<and> special_constraint stop = SC_FRAGILE
               then [''Fragile - loaded last for easy access'']
             else if special_constraint stop = SC_REFRIGERATED
               then [''Temperature-controlled delivery'']
             else if special_constraint stop = SC_FROZEN
               then [''Frozen goods - maintain cold chain'']
             else if special_constraint stop = SC_HAZMAT
               then [''Hazmat - follow safety protocols'']
             else []);
          notes2 = notes1 @ (if hour (time_window_end stop) < 12
                             then [''Morning delivery required''] else [])
      in if notes2 \<noteq> [] then join_notes notes2 else ''Standard delivery'')"

text \<open>The \<^verbatim>\<open>RouteStop(...)\<close> built, with the same fields, by both route builders.\<close>

definition make_route_stop :: "Stop \<Rightarrow> pytime \<Rightarrow> rat \<Rightarrow> nat \<Rightarrow> RouteStop" where
  "make_route_stop stop arrival distance position =
     \<lparr>rs_stop_id = stop_id stop,
      arrival_time = arrival,
      departure_mins = mins arrival + service_time_minutes stop,
      distance_from_previous = distance,
      rs_notes = get_stop_notes stop position,
      rs_address = address stop,
      rs_pallets = Some (pallets stop),
      rs_time_window_start = time_window_start stop,
      rs_time_window_end = time_window_end stop\<rparr>"

definition create_empty_route :: "Truck \<Rightarrow> TruckRoute" where
  "create_empty_route truck =
     \<lparr>tr_truck_id = truck_id truck, tr_stops = [], total_miles = 0, total_time_hours = 0,
      fuel_estimate = 0, utilization_percent = 0\<rparr>"

text \<open>
  The tail shared by \<^verbatim>\<open>_greedy_route\<close> and \<^verbatim>\<open>_extract_route_from_solution\<close>: the division by
  the speed, then the \<^verbatim>\<open>TruckRoute(...)\<close> whose utilization divides by \<^verbatim>\<open>max_pallets\<close>.
\<close>

definition build_route :: "Truck \<Rightarrow> RouteStop list \<Rightarrow> rat \<Rightarrow> int \<Rightarrow> py_error + TruckRoute" where
  "build_route truck route_stops total_distance total_pallets =
     (if avg_speed_mph truck = 0 then Inl ZeroDivisionError
      else let total_time_hours_v = total_distance / avg_speed_mph truck
                                    + of_nat (length route_stops) * (1 / 4)
      in if max_pallets truck = 0 then Inl ZeroDivisionError
         else Inr \<lparr>tr_truck_id = truck_id truck,
                   tr_stops = route_stops,
                   total_miles = py_round 1 total_distance,
                   total_time_hours = py_round 2 total_time_hours_v,
                   fuel_estimate = py_round 2 (total_distance * cost_per_mile truck),
                   utilization_percent =
                     py_round 1 ((of_int total_pallets / of_int (max_pallets truck)) * 100)\<rparr>)"

text \<open>
  \<^verbatim>\<open>_greedy_route\<close>, inner loop: the nearest remaining stop that fits the remaining capacity
  and whose window has not closed on arrival. \<^verbatim>\<open>best\<close> is \<^verbatim>\<open>None\<close> while \<^verbatim>\<open>best_distance\<close>
  is infinite.
\<close>

fun find_nearest ::
  "Truck \<Rightarrow> distance_matrix \<Rightarrow> location \<Rightarrow> int \<Rightarrow> int \<Rightarrow> Stop list
     \<Rightarrow> (Stop \<times> rat) option \<Rightarrow> py_error + (Stop \<times> rat) option" where
  "find_nearest truck dm current_location current_time total_pallets [] best = Inr best"
| "find_nearest truck dm current_location current_time total_pallets (stop # rest) best =
     (if total_pallets + pallets stop > max_pallets truck
      then find_nearest truck dm current_location current_time total_pallets rest best
      else
        (let d = dm_get dm current_location (StopLoc (stop_id stop));
             distance = (if d < 0 then 50 else d)
         in if avg_speed_mph truck = 0 then Inl ZeroDivisionError
            else
              (let travel_time = distance * 60 / avg_speed_mph truck;
                   arrival = of_int current_time + travel_time
               in if arrival \<le> of_int (mins (time_window_end stop))
                     \<and> (case best of None \<Rightarrow> True | Some (b, best_distance) \<Rightarrow> distance < best_distance)
                  then find_nearest truck dm current_location current_time total_pallets rest
                         (Some (stop, distance))
                  else find_nearest truck dm current_location current_time total_pallets rest
                         best)))"

lemma find_nearest_mem:
  "find_nearest truck dm cl ct tp remaining best = Inr (Some (s, d))
     \<Longrightarrow> s \<in> set remaining \<or> best = Some (s, d)"
  by (induction remaining arbitrary: best) (auto simp: Let_def split: if_splits)

text \<open>
  \<^verbatim>\<open>_greedy_route\<close>, outer \<^verbatim>\<open>while\<close> loop. \<^verbatim>\<open>remaining_stops.remove(best_stop)\<close> removes the
  first equal element, so the loop ends after at most one round per stop.
\<close>

function greedy_loop ::
  "Truck \<Rightarrow> distance_matrix \<Rightarrow> RouteStop list \<Rightarrow> Stop list \<Rightarrow> location \<Rightarrow> int \<Rightarrow> rat \<Rightarrow> int
     \<Rightarrow> py_error + (RouteStop list \<times> location \<times> rat \<times> int)" where
  "greedy_loop truck dm route_stops remaining_stops current_location current_time
       total_distance total_pallets =
     (if remaining_stops \<noteq> [] \<and> total_pallets < max_pallets truck then
        (case find_nearest truck dm current_location current_time total_pallets
                remaining_stops None of
           Inl e \<Rightarrow> Inl e
         | Inr None \<Rightarrow> Inr (route_stops, current_location, total_distance, total_pallets)
         | Inr (Some (best_stop, best_distance)) \<Rightarrow>
             (if avg_speed_mph truck = 0 then Inl ZeroDivisionError
              else
                (let arrival_mins =
                       current_time + py_int (best_distance * 60 / avg_speed_mph truck)
                 in case mk_time (arrival_mins div 60) (arrival_mins mod 60) of
                      Inl e \<Rightarrow> Inl e
                    | Inr arrival \<Rightarrow>
                        greedy_loop truck dm
                          (route_stops @ [make_route_stop best_stop arrival best_distance
                                            (length route_stops + 1)])
                          (remove1 best_stop remaining_stops)
                          (StopLoc (stop_id best_stop))
                          (arrival_mins + service_time_minutes best_stop)
                          (total_distance + best_distance)
                          (total_pallets + pallets best_stop))))
      else Inr (route_stops, current_location, total_distance, total_pallets))"
  by pat_completeness auto
termination
proof (relation "measure (\<lambda>(truck, dm, route_stops, remaining_stops, rest). length remaining_stops)")
  show "wf (measure (\<lambda>(truck, dm, route_stops, remaining_stops, rest). length remaining_stops))"
    by simp
next
  fix truck :: Truck and dm :: distance_matrix and route_stops :: "RouteStop list"
    and remaining_stops :: "Stop list" and current_location :: location
    and current_time :: int and total_distance :: rat and total_pallets :: int
    and b x2 best_stop best_distance arrival_mins x2a
  assume "find_nearest truck dm current_location current_time total_pallets remaining_stops None
            = Inr b"
    and "b = Some x2" and "(best_stop, best_distance) = x2"
  then have "best_stop \<in> set remaining_stops"
    using find_nearest_mem [of truck dm current_location current_time total_pallets
        remaining_stops None best_stop best_distance]
    by auto
  then have "length (remove1 best_stop remaining_stops) < length remaining_stops"
    by (simp add: length_remove1) (cases remaining_stops; simp)
  then show "((truck, dm,
        route_stops @ [make_route_stop best_stop x2a best_distance (length route_stops + 1)],
        remove1 best_stop remaining_stops, StopLoc (stop_id best_stop),
        arrival_mins + service_time_minutes best_stop, total_distance + best_distance,
        total_pallets + pallets best_stop),
       truck, dm, route_stops, remaining_stops, current_location, current_time,
       total_distance, total_pallets)
      \<in> measure (\<lambda>(truck, dm, route_stops, remaining_stops, rest). length remaining_stops)"
    by simp
qed


definition greedy_route :: "Truck \<Rightarrow> Stop list \<Rightarrow> distance_matrix \<Rightarrow> py_error + TruckRoute" where
  "greedy_route truck stops dm =
     (case greedy_loop truck dm [] stops (Depot (truck_id truck)) (mins (shift_start truck)) 0 0 of
        Inl e \<Rightarrow> Inl e
      | Inr (route_stops, current_location, total_distance, total_pallets) \<Rightarrow>
          build_route truck route_stops
            (if route_stops \<noteq> []
             then total_distance + dm_get dm current_location (Depot (truck_id truck))
             else total_distance)
            total_pallets)"

text \<open>
  \<^verbatim>\<open>_extract_route_from_solution\<close>: the loop walks the nodes of the solution from the start
  node 0 (the depot); node \<open>n > 0\<close> is \<^verbatim>\<open>stops[n - 1]\<close>, and an index past the list raises.
  The arrival of a stop is the running clock, which starts at the shift start and advances by
  travel and service times; it is not read from the solver.
\<close>

fun extract_loop ::
  "Truck \<Rightarrow> Stop list \<Rightarrow> distance_matrix \<Rightarrow> nat list \<Rightarrow> RouteStop list \<Rightarrow> rat \<Rightarrow> rat \<Rightarrow> int
     \<Rightarrow> py_error + (RouteStop list \<times> rat \<times> int)" where
  "extract_loop truck stops dm [] route_stops current_time total_distance total_pallets =
     Inr (route_stops, total_distance, total_pallets)"
| "extract_loop truck stops dm (node # rest) route_stops current_time total_distance
       total_pallets =
     (if node > length stops then Inl IndexError
      else
        (let (route_stops', total_distance', total_pallets') =
               (if node > 0 then
                  (let stop = stops ! (node - 1);
                       arrival_mins_int = py_int current_time;
                       hours = max 0 (min 23 (arrival_mins_int div 60));
                       minutes = max 0 (min 59 (arrival_mins_int mod 60));
                       prev_location =
                         (if route_stops = [] then Depot (truck_id truck)
                          else StopLoc (rs_stop_id (last route_stops)));
                       distance = dm_get dm prev_location (StopLoc (stop_id stop))
                   in (route_stops @ [make_route_stop stop (Time (nat hours) (nat minutes))
                                        distance (length route_stops + 1)],
                       total_distance + distance,
                       total_pallets + pallets stop))
                else (route_stops, total_distance, total_pallets))
         in case rest of
              [] \<Rightarrow> extract_loop truck stops dm rest route_stops' current_time
                      total_distance' total_pallets'
            | next_node # after \<Rightarrow>
                (if next_node > 0 then
                   (if next_node > length stops then Inl IndexError
                    else if avg_speed_mph truck = 0 then Inl ZeroDivisionError
                    else
                      (let travel_time =
                             dm_get dm
                               (if node > 0 then StopLoc (stop_id (stops ! (node - 1)))
                                else Depot (truck_id truck))
                               (StopLoc (stop_id (stops ! (next_node - 1))))
                             * 60 / avg_speed_mph truck
                       in extract_loop truck stops dm rest route_stops'
                            (current_time + travel_time
                               + (if node > 0
                                  then of_int (service_time_minutes (stops ! (node - 1)))
                                  else 0))
                            total_distance' total_pallets'))
                 else extract_loop truck stops dm rest route_stops' current_time
                        total_distance' total_pallets')))"

definition extract_route_from_solution ::
  "Truck \<Rightarrow> Stop list \<Rightarrow> nat list \<Rightarrow> distance_matrix \<Rightarrow> py_error + TruckRoute" where
  "extract_route_from_solution truck stops solution dm =
     (case extract_loop truck stops dm (0 # solution) [] (of_int (mins (shift_start truck))) 0 0 of
        Inl e \<Rightarrow> Inl e
      | Inr (route_stops, total_distance, total_pallets) \<Rightarrow>
          build_route truck route_stops
            (if route_stops \<noteq> []
             then total_distance
                    + dm_get dm (StopLoc (rs_stop_id (last route_stops))) (Depot (truck_id truck))
             else total_distance)
            total_pallets)"

text \<open>
  \<^verbatim>\<open>_optimize_truck_route\<close>. The constraint solver is a library outside the repository and is
  an argument of the model: given the truck and its stops it answers \<^verbatim>\<open>None\<close> (no solution
  inside the time limit) or the nodes in visiting order after the depot. The matrix and the
  dimensions handed to the solver do not appear in the result otherwise.
\<close>

type_synonym solver = "Truck \<Rightarrow> Stop list \<Rightarrow> nat list option"

definition optimize_truck_route ::
  "solver \<Rightarrow> Truck \<Rightarrow> Stop list \<Rightarrow> distance_matrix \<Rightarrow> py_error + TruckRoute" where
  "optimize_truck_route solve truck stops dm =
     (if stops = [] then Inr (create_empty_route truck)
      else if avg_speed_mph truck = 0 then Inl ZeroDivisionError
      else case solve truck stops of
             Some solution \<Rightarrow> extract_route_from_solution truck stops solution dm
           | None \<Rightarrow> greedy_route truck stops dm)"

text \<open>\<^verbatim>\<open>_check_time_compatibility\<close> and \<^verbatim>\<open>_get_compatible_stops\<close>; the dictionary is keyed by
  truck id, a later truck with the same id replaces the entry.\<close>

definition check_time_compatibility :: "Truck \<Rightarrow> Stop \<Rightarrow> bool" where
  "check_time_compatibility truck stop =
     (let truck_start_mins = mins (shift_start truck);
          truck_end_mins = mins (shift_end truck);
          stop_start_mins = mins (time_window_start stop);
          stop_end_mins = mins (time_window_end stop)
      in \<not> (truck_end_mins < stop_start_mins \<or> truck_start_mins > stop_end_mins))"

definition compatible_with :: "Truck \<Rightarrow> Stop list \<Rightarrow> Stop list" where
  "compatible_with truck stops =
     filter (\<lambda>stop. special_constraint stop \<in> set (compatibility_rules (truck_type truck))
                    \<and> pallets stop \<le> max_pallets truck
                    \<and> check_time_compatibility truck stop) stops"

fun get_compatible_stops :: "Truck list \<Rightarrow> Stop list \<Rightarrow> (string \<Rightarrow> Stop list option)
     \<Rightarrow> (string \<Rightarrow> Stop list option)" where
  "get_compatible_stops [] stops compatible_stops = compatible_stops"
| "get_compatible_stops (truck # trucks) stops compatible_stops =
     get_compatible_stops trucks stops
       (compatible_stops(truck_id truck \<mapsto> compatible_with truck stops))"

text \<open>
  \<^verbatim>\<open>route_trucks\<close>: the trucks in decreasing capacity (\<^verbatim>\<open>sorted(..., reverse=True)\<close> is
  stable), each taking stops that no earlier truck has taken. Geocoding only fills the
  coordinates from which the matrix is computed.
\<close>

fun route_loop ::
  "solver \<Rightarrow> distance_matrix \<Rightarrow> (string \<Rightarrow> Stop list option) \<Rightarrow> Truck list
     \<Rightarrow> (string \<Rightarrow> TruckRoute option) \<Rightarrow> int set
     \<Rightarrow> py_error + (string \<Rightarrow> TruckRoute option)" where
  "route_loop solve dm truck_compatible_stops [] truck_routes assigned_stops = Inr truck_routes"
| "route_loop solve dm truck_compatible_stops (truck # trucks) truck_routes assigned_stops =
     (case truck_compatible_stops (truck_id truck) of
        None \<Rightarrow> Inl KeyError
      | Some compatible \<Rightarrow>
          (let available_stops = filter (\<lambda>s. stop_id s \<notin> assigned_stops) compatible
           in if available_stops = []
              then route_loop solve dm truck_compatible_stops trucks
                     (truck_routes(truck_id truck \<mapsto> create_empty_route truck)) assigned_stops
              else case optimize_truck_route solve truck available_stops dm of
                     Inl e \<Rightarrow> Inl e
                   | Inr route \<Rightarrow>
                       route_loop solve dm truck_compatible_stops trucks
                         (truck_routes(truck_id truck \<mapsto> route))
                         (assigned_stops \<union> set (map rs_stop_id (tr_stops route)))))"

definition route_trucks ::
  "solver \<Rightarrow> distance_matrix \<Rightarrow> Stop list \<Rightarrow> Truck list
     \<Rightarrow> py_error + (string \<Rightarrow> TruckRoute option)" where
  "route_trucks solve dm stops trucks =
     route_loop solve dm (get_compatible_stops trucks stops Map.empty)
       (sort_key (\<lambda>t. - max_pallets t) trucks) Map.empty {}"


section \<open>Where the stops of a route come from\<close>

definition made_from :: "Stop set \<Rightarrow> RouteStop \<Rightarrow> bool" where
  "made_from S rs = (\<exists>s \<in> S. \<exists>a d p. rs = make_route_stop s a d p)"

lemma made_from_mono: "made_from S rs \<Longrightarrow> S \<subseteq> T \<Longrightarrow> made_from T rs"
  unfolding made_from_def by blast

lemma greedy_loop_made_from:
  "greedy_loop truck dm route_stops remaining cl ct td tp = Inr (rs', cl', td', tp')
     \<Longrightarrow> \<forall>x \<in> set route_stops. made_from S x \<Longrightarrow> set remaining \<subseteq> S
     \<Longrightarrow> \<forall>x \<in> set rs'. made_from S x"
proof (induction truck dm route_stops remaining cl ct td tp rule: greedy_loop.induct)
  case (1 truck dm route_stops remaining cl ct td tp)
  show ?case
  proof (cases "remaining \<noteq> [] \<and> tp < max_pallets truck")
    case False
    with "1.prems" show ?thesis
      by (simp add: greedy_loop.simps [of truck dm route_stops remaining])
  next
    case True
    show ?thesis
    proof (cases "find_nearest truck dm cl ct tp remaining None")
      case (Inl e)
      with True "1.prems"(1) show ?thesis
        by (simp add: greedy_loop.simps [of truck dm route_stops remaining])
    next
      case (Inr b)
      show ?thesis
      proof (cases b)
        case None
        with True Inr "1.prems" show ?thesis
          by (simp add: greedy_loop.simps [of truck dm route_stops remaining])
      next
        case (Some bd)
        obtain best_stop best_distance where bd: "bd = (best_stop, best_distance)"
          by (cases bd)
        have mem: "best_stop \<in> set remaining"
          using find_nearest_mem [of truck dm cl ct tp remaining None best_stop best_distance]
            Inr Some bd by simp
        have speed: "avg_speed_mph truck \<noteq> 0"
          using True Inr Some bd "1.prems"(1)
          by (auto simp: greedy_loop.simps [of truck dm route_stops remaining])
        define arrival_mins where
          "arrival_mins = ct + py_int (best_distance * 60 / avg_speed_mph truck)"
        obtain arrival where arr: "mk_time (arrival_mins div 60) (arrival_mins mod 60) = Inr arrival"
          using True Inr Some bd speed "1.prems"(1)
          by (cases "mk_time (arrival_mins div 60) (arrival_mins mod 60)")
             (auto simp: greedy_loop.simps [of truck dm route_stops remaining] Let_def
                arrival_mins_def)
        have rec: "greedy_loop truck dm
                     (route_stops @ [make_route_stop best_stop arrival best_distance
                                       (length route_stops + 1)])
                     (remove1 best_stop remaining) (StopLoc (stop_id best_stop))
                     (arrival_mins + service_time_minutes best_stop)
                     (td + best_distance) (tp + pallets best_stop) = Inr (rs', cl', td', tp')"
          using True Inr Some bd speed arr "1.prems"(1)
          by (simp add: greedy_loop.simps [of truck dm route_stops remaining] Let_def
                arrival_mins_def)
        show ?thesis
        proof (rule "1.IH" [OF True Inr Some bd [symmetric] speed arrival_mins_def arr rec])
          show "\<forall>x \<in> set (route_stops @ [make_route_stop best_stop arrival best_distance
                                            (length route_stops + 1)]). made_from S x"
            using "1.prems"(2,3) mem by (auto simp: made_from_def)
          show "set (remove1 best_stop remaining) \<subseteq> S"
            using "1.prems"(3) set_remove1_subset [of best_stop remaining] by blast
        qed
      qed
    qed
  qed
qed


lemma extract_loop_made_from:
  "extract_loop truck stops dm nodes route_stops ct td tp = Inr (rs', td', tp')
     \<Longrightarrow> \<forall>x \<in> set route_stops. made_from (set stops) x
     \<Longrightarrow> \<forall>x \<in> set rs'. made_from (set stops) x"
proof (induction nodes arbitrary: route_stops ct td tp)
  case Nil
  then show ?case by simp
next
  case (Cons node rest)
  have le: "node \<le> length stops"
    using Cons.prems(1) by (auto split: if_splits)
  define step where
    "step = (if node > 0 then
               route_stops @ [make_route_stop (stops ! (node - 1))
                  (Time (nat (max 0 (min 23 (py_int ct div 60))))
                        (nat (max 0 (min 59 (py_int ct mod 60)))))
                  (dm_get dm (if route_stops = [] then Depot (truck_id truck)
                              else StopLoc (rs_stop_id (last route_stops)))
                     (StopLoc (stop_id (stops ! (node - 1)))))
                  (length route_stops + 1)]
             else route_stops)"
  have step_ok: "\<forall>x \<in> set step. made_from (set stops) x"
  proof (cases "node > 0")
    case True
    then have "stops ! (node - 1) \<in> set stops" using le by simp
    then show ?thesis
      using Cons.prems(2) True unfolding step_def made_from_def by auto
  next
    case False
    then show ?thesis using Cons.prems(2) by (simp add: step_def)
  qed
  obtain ct2 td2 tp2 where
    "extract_loop truck stops dm rest step ct2 td2 tp2 = Inr (rs', td', tp')"
    using Cons.prems(1) le
    by (cases rest) (auto simp: step_def Let_def split: if_splits)
  then show ?case
    using Cons.IH step_ok by blast
qed

lemma build_route_stops:
  "build_route truck route_stops td tp = Inr r \<Longrightarrow> tr_stops r = route_stops"
  by (auto simp: build_route_def Let_def split: if_splits)

lemma optimize_made_from:
  assumes "optimize_truck_route solve truck stops dm = Inr r"
  shows "\<forall>x \<in> set (tr_stops r). made_from (set stops) x"
proof (cases "stops = []")
  case True
  with assms show ?thesis
    by (auto simp: optimize_truck_route_def create_empty_route_def)
next
  case False
  show ?thesis
  proof (cases "solve truck stops")
    case None
    with assms False have g: "greedy_route truck stops dm = Inr r"
      by (simp add: optimize_truck_route_def split: if_splits)
    then obtain rs cl td tp where
      loop: "greedy_loop truck dm [] stops (Depot (truck_id truck)) (mins (shift_start truck)) 0 0
               = Inr (rs, cl, td, tp)"
      and r: "tr_stops r = rs"
      by (auto simp: greedy_route_def split: sum.splits dest: build_route_stops)
    from greedy_loop_made_from [OF loop, of "set stops"] r show ?thesis by simp
  next
    case (Some solution)
    with assms False have e: "extract_route_from_solution truck stops solution dm = Inr r"
      by (simp add: optimize_truck_route_def split: if_splits)
    then obtain rs td tp where
      loop: "extract_loop truck stops dm (0 # solution) [] (of_int (mins (shift_start truck))) 0 0
               = Inr (rs, td, tp)"
      and r: "tr_stops r = rs"
      by (auto simp: extract_route_from_solution_def split: sum.splits dest: build_route_stops)
    from extract_loop_made_from [OF loop] r show ?thesis by simp
  qed
qed

lemma made_from_id: "made_from S rs \<Longrightarrow> rs_stop_id rs \<in> stop_id ` S"
  by (auto simp: made_from_def make_route_stop_def)

definition route_ids :: "TruckRoute \<Rightarrow> int set" where
  "route_ids route = set (map rs_stop_id (tr_stops route))"

lemma optimize_ids:
  "optimize_truck_route solve truck stops dm = Inr r \<Longrightarrow> route_ids r \<subseteq> stop_id ` set stops"
  using optimize_made_from [of solve truck stops dm r] made_from_id
  by (auto simp: route_ids_def)

lemma route_ids_empty [simp]: "route_ids (create_empty_route truck) = {}"
  by (simp add: route_ids_def create_empty_route_def)

section \<open>Routes share no stop\<close>

definition routes_disjoint :: "(string \<Rightarrow> TruckRoute option) \<Rightarrow> bool" where
  "routes_disjoint m =
     (\<forall>k1 k2 r1 r2. k1 \<noteq> k2 \<longrightarrow> m k1 = Some r1 \<longrightarrow> m k2 = Some r2
        \<longrightarrow> route_ids r1 \<inter> route_ids r2 = {})"

lemma route_loop_disjoint:
  "route_loop solve dm cs trucks m A = Inr m'
     \<Longrightarrow> routes_disjoint m \<Longrightarrow> \<forall>k r. m k = Some r \<longrightarrow> route_ids r \<subseteq> A
     \<Longrightarrow> routes_disjoint m'"
proof (induction trucks arbitrary: m A)
  case Nil
  then show ?case by simp
next
  case (Cons truck trucks)
  obtain compatible where c: "cs (truck_id truck) = Some compatible"
    using Cons.prems(1) by (cases "cs (truck_id truck)") auto
  define available where "available = filter (\<lambda>s. stop_id s \<notin> A) compatible"
  have step: "\<And>r. route_ids r \<inter> A = {} \<Longrightarrow>
      routes_disjoint (m(truck_id truck \<mapsto> r))
      \<and> (\<forall>k r'. (m(truck_id truck \<mapsto> r)) k = Some r' \<longrightarrow> route_ids r' \<subseteq> A \<union> route_ids r)"
  proof -
    fix r assume d: "route_ids r \<inter> A = {}"
    have "routes_disjoint (m(truck_id truck \<mapsto> r))"
      unfolding routes_disjoint_def
    proof (intro allI impI)
      fix k1 k2 r1 r2
      assume ne: "k1 \<noteq> k2"
        and 1: "(m(truck_id truck \<mapsto> r)) k1 = Some r1"
        and 2: "(m(truck_id truck \<mapsto> r)) k2 = Some r2"
      show "route_ids r1 \<inter> route_ids r2 = {}"
      proof (cases "k1 = truck_id truck")
        case True
        then have "r1 = r" "m k2 = Some r2" using 1 2 ne by auto
        then show ?thesis using Cons.prems(3) d by blast
      next
        case False
        then have m1: "m k1 = Some r1" using 1 by simp
        show ?thesis
        proof (cases "k2 = truck_id truck")
          case True
          then have "r2 = r" using 2 by simp
          then show ?thesis using Cons.prems(3) d m1 by blast
        next
          case False
          then have "m k2 = Some r2" using 2 by simp
          then show ?thesis using Cons.prems(2) m1 ne unfolding routes_disjoint_def by blast
        qed
      qed
    qed
    moreover have "\<forall>k r'. (m(truck_id truck \<mapsto> r)) k = Some r' \<longrightarrow> route_ids r' \<subseteq> A \<union> route_ids r"
      using Cons.prems(3) by (auto split: if_splits)
    ultimately show "routes_disjoint (m(truck_id truck \<mapsto> r))
      \<and> (\<forall>k r'. (m(truck_id truck \<mapsto> r)) k = Some r' \<longrightarrow> route_ids r' \<subseteq> A \<union> route_ids r)"
      by blast
  qed
  show ?case
  proof (cases "available = []")
    case True
    then have rec: "route_loop solve dm cs trucks
                      (m(truck_id truck \<mapsto> create_empty_route truck)) A = Inr m'"
      using Cons.prems(1) c by (simp add: available_def)
    have "route_ids (create_empty_route truck) \<inter> A = {}" by simp
    from step [OF this]
    have a: "routes_disjoint (m(truck_id truck \<mapsto> create_empty_route truck))"
      and b: "\<forall>k r'. (m(truck_id truck \<mapsto> create_empty_route truck)) k = Some r'
                 \<longrightarrow> route_ids r' \<subseteq> A \<union> route_ids (create_empty_route truck)"
      by blast+
    from b have b': "\<forall>k r'. (m(truck_id truck \<mapsto> create_empty_route truck)) k = Some r'
                 \<longrightarrow> route_ids r' \<subseteq> A"
      by (simp only: route_ids_empty Un_empty_right)
    show ?thesis by (rule Cons.IH [OF rec a b'])
  next
    case False
    then obtain r where opt: "optimize_truck_route solve truck available dm = Inr r"
      and rec: "route_loop solve dm cs trucks (m(truck_id truck \<mapsto> r)) (A \<union> route_ids r) = Inr m'"
      using Cons.prems(1) c
      by (cases "optimize_truck_route solve truck available dm")
         (auto simp: available_def route_ids_def)
    have "route_ids r \<subseteq> stop_id ` set available" by (rule optimize_ids [OF opt])
    then have "route_ids r \<inter> A = {}" by (auto simp: available_def)
    from step [OF this]
    have a: "routes_disjoint (m(truck_id truck \<mapsto> r))"
      and b: "\<forall>k r'. (m(truck_id truck \<mapsto> r)) k = Some r'
                 \<longrightarrow> route_ids r' \<subseteq> A \<union> route_ids r"
      by blast+
    show ?thesis by (rule Cons.IH [OF rec a b])
  qed
qed

definition truck_a :: Truck where
  "truck_a = \<lparr>truck_id = ''A'', depot_address = ''Depot'', max_pallets = 10, truck_type = TT_DRY,
      shift_start = Time 8 0, shift_end = Time 17 0, cost_per_mile = 5 / 2, avg_speed_mph = 45\<rparr>"

definition truck_b :: Truck where
  "truck_b = truck_a\<lparr>truck_id := ''B'', max_pallets := 5\<rparr>"

definition three_stops :: "Stop list" where
  "three_stops =
     [sample_stop\<lparr>pallets := 6\<rparr>,
      sample_stop\<lparr>stop_id := 2, pallets := 4\<rparr>,
      sample_stop\<lparr>stop_id := 3, pallets := 5\<rparr>]"

text \<open>
  C10. In the map returned by \<^verbatim>\<open>route_trucks\<close>, the routes under two different truck ids
  have no stop id in common.
\<close>

theorem routes_pairwise_disjoint:
  assumes "route_trucks solve dm stops trucks = Inr routes"
    and "k1 \<noteq> k2" and "routes k1 = Some r1" and "routes k2 = Some r2"
  shows "set (map rs_stop_id (tr_stops r1)) \<inter> set (map rs_stop_id (tr_stops r2)) = {}"
proof -
  have "routes_disjoint routes"
    using assms(1) unfolding route_trucks_def
    by (rule route_loop_disjoint) (simp_all add: routes_disjoint_def)
  then show ?thesis
    using assms(2,3,4) unfolding routes_disjoint_def route_ids_def by blast
qed

theorem routes_pairwise_disjoint_witness:
  "(case route_trucks (\<lambda>_ _. None) Map.empty three_stops [truck_b, truck_a] of
       Inl e \<Rightarrow> False
     | Inr routes \<Rightarrow>
         (case routes ''A'' of None \<Rightarrow> False
          | Some r1 \<Rightarrow>
              (case routes ''B'' of None \<Rightarrow> False
               | Some r2 \<Rightarrow>
                   tr_stops r1 \<noteq> [] \<and> tr_stops r2 \<noteq> [] \<and>
                   set (map rs_stop_id (tr_stops r1)) \<inter> set (map rs_stop_id (tr_stops r2)) = {})))"
proof -
  have ev: "(case route_trucks (\<lambda>_ _. None) Map.empty three_stops [truck_b, truck_a] of
       Inl e \<Rightarrow> False
     | Inr routes \<Rightarrow>
         (case routes ''A'' of None \<Rightarrow> False
          | Some r1 \<Rightarrow>
              (case routes ''B'' of None \<Rightarrow> False
               | Some r2 \<Rightarrow> tr_stops r1 \<noteq> [] \<and> tr_stops r2 \<noteq> [])))"
    by code_simp
  then obtain routes r1 r2 where
    e: "route_trucks (\<lambda>_ _. None) Map.empty three_stops [truck_b, truck_a] = Inr routes"
    and a: "routes ''A'' = Some r1" and b: "routes ''B'' = Some r2"
    and ne: "tr_stops r1 \<noteq> []" "tr_stops r2 \<noteq> []"
    by (auto split: sum.splits option.splits)
  have "''A'' \<noteq> ''B''" by simp
  from routes_pairwise_disjoint [OF e this a b] e a b ne show ?thesis by simp
qed

section \<open>Special constraints and truck types\<close>

lemma route_loop_untouched:
  "route_loop solve dm cs trucks m A = Inr m' \<Longrightarrow> k \<notin> truck_id ` set trucks \<Longrightarrow> m' k = m k"
proof (induction trucks arbitrary: m A)
  case Nil
  then show ?case by simp
next
  case (Cons truck trucks)
  from Cons.prems(1) obtain m1 A1 where
    rec: "route_loop solve dm cs trucks m1 A1 = Inr m'" and m1: "m1 k = m k"
    using Cons.prems(2)
    by (auto simp: Let_def split: option.splits if_splits sum.splits)
  from Cons.IH [OF rec] Cons.prems(2) m1 show ?case by simp
qed

lemma route_loop_made_from:
  "route_loop solve dm cs trucks m A = Inr m' \<Longrightarrow> distinct (map truck_id trucks)
     \<Longrightarrow> t \<in> set trucks \<Longrightarrow> cs (truck_id t) = Some c
     \<Longrightarrow> \<exists>r. m' (truck_id t) = Some r \<and> (\<forall>rs \<in> set (tr_stops r). made_from (set c) rs)"
proof (induction trucks arbitrary: m A)
  case Nil
  then show ?case by simp
next
  case (Cons truck trucks)
  show ?case
  proof (cases "t = truck")
    case False
    from Cons.prems(1) obtain m1 A1 where
      rec: "route_loop solve dm cs trucks m1 A1 = Inr m'"
      by (auto simp: Let_def split: option.splits if_splits sum.splits)
    show ?thesis
      using Cons.IH [OF rec] Cons.prems(2,3,4) False by simp
  next
    case True
    have notin: "truck_id t \<notin> truck_id ` set trucks"
      using Cons.prems(2) True by simp
    define available where "available = filter (\<lambda>s. stop_id s \<notin> A) c"
    show ?thesis
    proof (cases "available = []")
      case True
      then have rec: "route_loop solve dm cs trucks
                        (m(truck_id truck \<mapsto> create_empty_route truck)) A = Inr m'"
        using Cons.prems(1,4) \<open>t = truck\<close> by (simp add: available_def)
      from route_loop_untouched [OF rec notin] \<open>t = truck\<close>
      show ?thesis by (simp add: create_empty_route_def)
    next
      case False
      then obtain r where opt: "optimize_truck_route solve truck available dm = Inr r"
        and rec: "route_loop solve dm cs trucks (m(truck_id truck \<mapsto> r))
                    (A \<union> set (map rs_stop_id (tr_stops r))) = Inr m'"
        using Cons.prems(1,4) \<open>t = truck\<close>
        by (cases "optimize_truck_route solve truck available dm")
           (auto simp: available_def)
      have "\<forall>x \<in> set (tr_stops r). made_from (set available) x"
        by (rule optimize_made_from [OF opt])
      then have "\<forall>x \<in> set (tr_stops r). made_from (set c) x"
        using made_from_mono [of "set available" _ "set c"] by (auto simp: available_def)
      with route_loop_untouched [OF rec notin] \<open>t = truck\<close>
      show ?thesis by simp
    qed
  qed
qed

lemma get_compatible_stops_other:
  "k \<notin> truck_id ` set trucks \<Longrightarrow> get_compatible_stops trucks stops m k = m k"
  by (induction trucks arbitrary: m) auto

lemma get_compatible_stops_lookup:
  "distinct (map truck_id trucks) \<Longrightarrow> t \<in> set trucks
     \<Longrightarrow> get_compatible_stops trucks stops m (truck_id t) = Some (compatible_with t stops)"
proof (induction trucks arbitrary: m)
  case Nil
  then show ?case by simp
next
  case (Cons x xs)
  show ?case
  proof (cases "t = x")
    case True
    then have "truck_id t \<notin> truck_id ` set xs" using Cons.prems(1) by simp
    then show ?thesis
      using True by (simp add: get_compatible_stops_other)
  next
    case False
    then show ?thesis using Cons by simp
  qed
qed

lemma distinct_map_sort_key:
  "distinct (map g (sort_key f xs)) = distinct (map g xs)"
  by (simp add: distinct_map)

lemma route_trucks_made_from:
  assumes "route_trucks solve dm stops trucks = Inr routes"
    and "distinct (map truck_id trucks)" and "t \<in> set trucks"
  shows "\<exists>r. routes (truck_id t) = Some r
           \<and> (\<forall>rs \<in> set (tr_stops r). made_from (set (compatible_with t stops)) rs)"
proof (rule route_loop_made_from)
  show "route_loop solve dm (get_compatible_stops trucks stops Map.empty)
          (sort_key (\<lambda>t. - max_pallets t) trucks) Map.empty {} = Inr routes"
    using assms(1) by (simp add: route_trucks_def)
  show "distinct (map truck_id (sort_key (\<lambda>t. - max_pallets t) trucks))"
    using assms(2) by (simp add: distinct_map_sort_key)
  show "t \<in> set (sort_key (\<lambda>t. - max_pallets t) trucks)"
    using assms(3) by simp
  show "get_compatible_stops trucks stops Map.empty (truck_id t) = Some (compatible_with t stops)"
    by (rule get_compatible_stops_lookup [OF assms(2,3)])
qed

definition hazmat_truck :: Truck where
  "hazmat_truck = truck_a\<lparr>truck_id := ''H'', truck_type := TT_HAZMAT\<rparr>"

definition hazmat_stop :: Stop where
  "hazmat_stop = sample_stop\<lparr>stop_id := 7, special_constraint := SC_HAZMAT\<rparr>"

text \<open>
  C3. With truck ids and stop ids unique within the request, a stop with the Hazmat
  constraint appears only on the route of a Hazmat truck, and a stop with the Frozen
  constraint never appears on the route of a Dry or Flatbed truck. The truck ids have to be
  unique: \<^verbatim>\<open>_get_compatible_stops\<close> and the returned map are keyed by truck id, so of two
  trucks with one id the second one's compatible stops are offered to both.
\<close>

theorem constraints_match_truck_type:
  assumes "route_trucks solve dm stops trucks = Inr routes"
    and "distinct (map truck_id trucks)" and "distinct (map stop_id stops)"
    and "t \<in> set trucks" and "routes (truck_id t) = Some r" and "rs \<in> set (tr_stops r)"
    and "s \<in> set stops" and "stop_id s = rs_stop_id rs"
  shows "(special_constraint s = SC_HAZMAT \<longrightarrow> truck_type t = TT_HAZMAT) \<and>
         (special_constraint s = SC_FROZEN \<longrightarrow> truck_type t \<noteq> TT_DRY \<and> truck_type t \<noteq> TT_FLATBED)"
proof -
  from route_trucks_made_from [OF assms(1,2,4)] assms(5,6)
  have "made_from (set (compatible_with t stops)) rs" by auto
  then obtain s' where s': "s' \<in> set (compatible_with t stops)" and id: "rs_stop_id rs = stop_id s'"
    by (auto simp: made_from_def make_route_stop_def)
  have "s' \<in> set stops" using s' by (simp add: compatible_with_def)
  moreover have "inj_on stop_id (set stops)" using assms(3) by (simp add: distinct_map)
  ultimately have "s' = s" using assms(7,8) id by (auto dest: inj_onD)
  then have "special_constraint s \<in> set (compatibility_rules (truck_type t))"
    using s' by (simp add: compatible_with_def)
  then show ?thesis by (cases "truck_type t") auto
qed


theorem constraints_match_truck_type_witness:
  "(case route_trucks (\<lambda>_ _. None) Map.empty [sample_stop, hazmat_stop] [truck_a, hazmat_truck] of
       Inl e \<Rightarrow> False
     | Inr routes \<Rightarrow>
         (case routes ''H'' of None \<Rightarrow> False
          | Some r \<Rightarrow> map rs_stop_id (tr_stops r) = [7]
                       \<and> special_constraint hazmat_stop = SC_HAZMAT
                       \<and> truck_type hazmat_truck = TT_HAZMAT))"
proof -
  have ev: "(case route_trucks (\<lambda>_ _. None) Map.empty [sample_stop, hazmat_stop]
                    [truck_a, hazmat_truck] of
       Inl e \<Rightarrow> False
     | Inr routes \<Rightarrow>
         (case routes ''H'' of None \<Rightarrow> False
          | Some r \<Rightarrow> map rs_stop_id (tr_stops r) = [7]))"
    by code_simp
  then obtain routes r where
    e: "route_trucks (\<lambda>_ _. None) Map.empty [sample_stop, hazmat_stop] [truck_a, hazmat_truck]
          = Inr routes"
    and h: "routes ''H'' = Some r" and ids: "map rs_stop_id (tr_stops r) = [7]"
    by (auto split: sum.splits option.splits)
  from ids obtain rs where rs: "tr_stops r = [rs]" and rid: "rs_stop_id rs = 7"
    by (cases "tr_stops r") auto
  have d1: "distinct (map truck_id [truck_a, hazmat_truck])"
    by (simp add: truck_a_def hazmat_truck_def)
  have d2: "distinct (map stop_id [sample_stop, hazmat_stop])"
    by (simp add: sample_stop_def hazmat_stop_def)
  have t: "hazmat_truck \<in> set [truck_a, hazmat_truck]" by simp
  have h': "routes (truck_id hazmat_truck) = Some r"
    using h by (simp add: hazmat_truck_def truck_a_def)
  have m: "rs \<in> set (tr_stops r)" using rs by simp
  have s: "hazmat_stop \<in> set [sample_stop, hazmat_stop]" by simp
  have i: "stop_id hazmat_stop = rs_stop_id rs" using rid by (simp add: hazmat_stop_def)
  have c: "special_constraint hazmat_stop = SC_HAZMAT" by (simp add: hazmat_stop_def)
  from constraints_match_truck_type [OF e d1 d2 t h' m s i] c
  have "truck_type hazmat_truck = TT_HAZMAT" by simp
  with e h ids c show ?thesis by simp
qed

text \<open>
  A Dry truck of capacity 5 and a Hazmat truck of capacity 10, both with the id \<^verbatim>\<open>A\<close>, and two
  Hazmat stops of 10 and 5 pallets. The Hazmat truck is routed first and takes stop 1; the Dry
  truck is then offered the stops compatible with \<^verbatim>\<open>A\<close>, takes the Hazmat stop 2, and its
  route (5 of 5 pallets) replaces the other one in the returned map.
\<close>

definition no_solution :: solver where
  "no_solution truck stops = None"

definition dry_truck_a :: Truck where
  "dry_truck_a = truck_a\<lparr>max_pallets := 5\<rparr>"

definition hazmat_truck_a :: Truck where
  "hazmat_truck_a = truck_a\<lparr>truck_type := TT_HAZMAT\<rparr>"

definition hazmat_stops :: "Stop list" where
  "hazmat_stops =
     [sample_stop\<lparr>pallets := 10, special_constraint := SC_HAZMAT\<rparr>,
      sample_stop\<lparr>stop_id := 2, pallets := 5, special_constraint := SC_HAZMAT\<rparr>]"

theorem duplicate_truck_id_carries_hazmat:
  "map truck_id [dry_truck_a, hazmat_truck_a] = [''A'', ''A''] \<and>
   map truck_type [dry_truck_a, hazmat_truck_a] = [TT_DRY, TT_HAZMAT] \<and>
   map max_pallets [dry_truck_a, hazmat_truck_a] = [5, 10] \<and>
   map stop_id hazmat_stops = [1, 2] \<and>
   map special_constraint hazmat_stops = [SC_HAZMAT, SC_HAZMAT] \<and>
   map rs_stop_id
     (tr_stops (the (projr (route_trucks no_solution Map.empty hazmat_stops
                              [dry_truck_a, hazmat_truck_a]) ''A'')))
     = [2] \<and>
   utilization_percent
     (the (projr (route_trucks no_solution Map.empty hazmat_stops
                    [dry_truck_a, hazmat_truck_a]) ''A''))
     = 100"
  by code_simp

section \<open>Capacity of a route\<close>

text \<open>The pallets on a list of route stops; \<^verbatim>\<open>pallets\<close> is optional in a \<^verbatim>\<open>RouteStop\<close>.\<close>

definition load :: "RouteStop list \<Rightarrow> int" where
  "load route_stops =
     sum_list (map (\<lambda>rs. case rs_pallets rs of None \<Rightarrow> 0 | Some p \<Rightarrow> p) route_stops)"

lemma load_simps [simp]:
  "load [] = 0"
  "load (xs @ [make_route_stop s a d p]) = load xs + pallets s"
  by (simp_all add: load_def make_route_stop_def)

lemma assigned_pallets_load: "assigned_pallets r = load (tr_stops r)"
  by (simp add: assigned_pallets_def load_def)

lemma find_nearest_fits:
  "find_nearest truck dm cl ct tp remaining best = Inr (Some (s, d))
     \<Longrightarrow> \<forall>b bd. best = Some (b, bd) \<longrightarrow> tp + pallets b \<le> max_pallets truck
     \<Longrightarrow> tp + pallets s \<le> max_pallets truck"
proof (induction remaining arbitrary: best)
  case Nil
  then show ?case by simp
next
  case (Cons stop rest)
  show ?case
  proof (cases "tp + pallets stop > max_pallets truck")
    case True
    with Cons.prems have "find_nearest truck dm cl ct tp rest best = Inr (Some (s, d))"
      by simp
    from Cons.IH [OF this Cons.prems(2)] show ?thesis .
  next
    case False
    from Cons.prems(1) False obtain best' where
      rec: "find_nearest truck dm cl ct tp rest best' = Inr (Some (s, d))"
      and b': "best' = best \<or> (\<exists>dist. best' = Some (stop, dist))"
      by (auto simp: Let_def split: if_splits)
    have "\<forall>b bd. best' = Some (b, bd) \<longrightarrow> tp + pallets b \<le> max_pallets truck"
      using b' Cons.prems(2) False by auto
    from Cons.IH [OF rec this] show ?thesis .
  qed
qed

lemma greedy_loop_load:
  "greedy_loop truck dm route_stops remaining cl ct td tp = Inr (rs', cl', td', tp')
     \<Longrightarrow> load route_stops = tp \<Longrightarrow> tp \<le> max_pallets truck \<or> route_stops = []
     \<Longrightarrow> load rs' = tp' \<and> (tp' \<le> max_pallets truck \<or> rs' = [])"
proof (induction truck dm route_stops remaining cl ct td tp rule: greedy_loop.induct)
  case (1 truck dm route_stops remaining cl ct td tp)
  show ?case
  proof (cases "remaining \<noteq> [] \<and> tp < max_pallets truck")
    case False
    with "1.prems" show ?thesis
      by (simp add: greedy_loop.simps [of truck dm route_stops remaining])
  next
    case True
    show ?thesis
    proof (cases "find_nearest truck dm cl ct tp remaining None")
      case (Inl e)
      with True "1.prems"(1) show ?thesis
        by (simp add: greedy_loop.simps [of truck dm route_stops remaining])
    next
      case (Inr b)
      show ?thesis
      proof (cases b)
        case None
        with True Inr "1.prems" show ?thesis
          by (simp add: greedy_loop.simps [of truck dm route_stops remaining])
      next
        case (Some bd)
        obtain best_stop best_distance where bd: "bd = (best_stop, best_distance)"
          by (cases bd)
        have fits: "tp + pallets best_stop \<le> max_pallets truck"
          using find_nearest_fits [of truck dm cl ct tp remaining None best_stop best_distance]
            Inr Some bd by simp
        have speed: "avg_speed_mph truck \<noteq> 0"
          using True Inr Some bd "1.prems"(1)
          by (auto simp: greedy_loop.simps [of truck dm route_stops remaining])
        define arrival_mins where
          "arrival_mins = ct + py_int (best_distance * 60 / avg_speed_mph truck)"
        obtain arrival where arr: "mk_time (arrival_mins div 60) (arrival_mins mod 60) = Inr arrival"
          using True Inr Some bd speed "1.prems"(1)
          by (cases "mk_time (arrival_mins div 60) (arrival_mins mod 60)")
             (auto simp: greedy_loop.simps [of truck dm route_stops remaining] Let_def
                arrival_mins_def)
        have rec: "greedy_loop truck dm
                     (route_stops @ [make_route_stop best_stop arrival best_distance
                                       (length route_stops + 1)])
                     (remove1 best_stop remaining) (StopLoc (stop_id best_stop))
                     (arrival_mins + service_time_minutes best_stop)
                     (td + best_distance) (tp + pallets best_stop) = Inr (rs', cl', td', tp')"
          using True Inr Some bd speed arr "1.prems"(1)
          by (simp add: greedy_loop.simps [of truck dm route_stops remaining] Let_def
                arrival_mins_def)
        show ?thesis
        proof (rule "1.IH" [OF True Inr Some bd [symmetric] speed arrival_mins_def arr rec])
          show "load (route_stops @ [make_route_stop best_stop arrival best_distance
                                       (length route_stops + 1)]) = tp + pallets best_stop"
            using "1.prems"(2) by simp
          show "tp + pallets best_stop \<le> max_pallets truck
                \<or> route_stops @ [make_route_stop best_stop arrival best_distance
                                   (length route_stops + 1)] = []"
            using fits by simp
        qed
      qed
    qed
  qed
qed

text \<open>The pallets of the stops behind the nodes of a solution (node 0 is the depot).\<close>

definition visited_pallets :: "Stop list \<Rightarrow> nat list \<Rightarrow> int" where
  "visited_pallets stops nodes =
     sum_list (map (\<lambda>n. pallets (stops ! (n - 1))) (filter (\<lambda>n. 0 < n) nodes))"

lemma extract_loop_load:
  "extract_loop truck stops dm nodes route_stops ct td tp = Inr (rs', td', tp')
     \<Longrightarrow> load rs' = load route_stops + visited_pallets stops nodes"
proof (induction nodes arbitrary: route_stops ct td tp)
  case Nil
  then show ?case by (simp add: visited_pallets_def)
next
  case (Cons node rest)
  define step where
    "step = (if node > 0 then
               route_stops @ [make_route_stop (stops ! (node - 1))
                  (Time (nat (max 0 (min 23 (py_int ct div 60))))
                        (nat (max 0 (min 59 (py_int ct mod 60)))))
                  (dm_get dm (if route_stops = [] then Depot (truck_id truck)
                              else StopLoc (rs_stop_id (last route_stops)))
                     (StopLoc (stop_id (stops ! (node - 1)))))
                  (length route_stops + 1)]
             else route_stops)"
  have step_load: "load step = load route_stops + visited_pallets stops [node]"
    by (simp add: step_def visited_pallets_def)
  obtain ct2 td2 tp2 where
    "extract_loop truck stops dm rest step ct2 td2 tp2 = Inr (rs', td', tp')"
    using Cons.prems(1)
    by (cases rest) (auto simp: step_def Let_def split: if_splits)
  from Cons.IH [OF this] step_load show ?case
    by (simp add: visited_pallets_def)
qed

text \<open>
  What the solver guarantees for the capacity dimension that \<^verbatim>\<open>_optimize_truck_route\<close>
  registers (demand \<^verbatim>\<open>stops[node - 1].pallets\<close>, slack 0, capacity \<^verbatim>\<open>truck.max_pallets\<close>, start
  at zero): the demand accumulated along a solution stays within the capacity.
\<close>

definition respects_capacity :: "solver \<Rightarrow> bool" where
  "respects_capacity solve =
     (\<forall>truck stops solution. solve truck stops = Some solution
        \<longrightarrow> visited_pallets stops solution \<le> max_pallets truck)"

lemma optimize_load:
  assumes "respects_capacity solve" and "optimize_truck_route solve truck stops dm = Inr r"
  shows "assigned_pallets r \<le> max_pallets truck \<or> tr_stops r = []"
proof (cases "stops = []")
  case True
  with assms(2) show ?thesis
    by (auto simp: optimize_truck_route_def create_empty_route_def)
next
  case False
  show ?thesis
  proof (cases "solve truck stops")
    case None
    with assms(2) False have g: "greedy_route truck stops dm = Inr r"
      by (simp add: optimize_truck_route_def split: if_splits)
    then obtain rs cl td tp where
      loop: "greedy_loop truck dm [] stops (Depot (truck_id truck)) (mins (shift_start truck)) 0 0
               = Inr (rs, cl, td, tp)"
      and r: "tr_stops r = rs"
      by (auto simp: greedy_route_def split: sum.splits dest: build_route_stops)
    from greedy_loop_load [OF loop] r show ?thesis
      by (auto simp: assigned_pallets_load)
  next
    case (Some solution)
    with assms(2) False have e: "extract_route_from_solution truck stops solution dm = Inr r"
      by (simp add: optimize_truck_route_def split: if_splits)
    then obtain rs td tp where
      loop: "extract_loop truck stops dm (0 # solution) [] (of_int (mins (shift_start truck))) 0 0
               = Inr (rs, td, tp)"
      and r: "tr_stops r = rs"
      by (auto simp: extract_route_from_solution_def split: sum.splits dest: build_route_stops)
    have "load rs = visited_pallets stops solution"
      using extract_loop_load [OF loop] by (simp add: visited_pallets_def)
    moreover have "visited_pallets stops solution \<le> max_pallets truck"
      using assms(1) Some unfolding respects_capacity_def by blast
    ultimately show ?thesis using r by (simp add: assigned_pallets_load)
  qed
qed


lemma route_loop_keep:
  "respects_capacity solve \<Longrightarrow> route_loop solve dm cs trucks m A = Inr m'
     \<Longrightarrow> m k = Some r0 \<Longrightarrow> assigned_pallets r0 \<le> B \<or> tr_stops r0 = []
     \<Longrightarrow> \<forall>t \<in> set trucks. max_pallets t \<le> B
     \<Longrightarrow> \<exists>r. m' k = Some r \<and> (assigned_pallets r \<le> B \<or> tr_stops r = [])"
proof (induction trucks arbitrary: m A r0)
  case Nil
  then show ?case by simp
next
  case (Cons truck trucks)
  from Cons.prems(2) obtain r1 A1 where
    rec: "route_loop solve dm cs trucks (m(truck_id truck \<mapsto> r1)) A1 = Inr m'"
    and r1: "r1 = create_empty_route truck
             \<or> (\<exists>available. optimize_truck_route solve truck available dm = Inr r1)"
    by (auto simp: Let_def split: option.splits if_splits sum.splits)
  have "assigned_pallets r1 \<le> max_pallets truck \<or> tr_stops r1 = []"
    using r1 optimize_load [OF Cons.prems(1)] by (auto simp: create_empty_route_def)
  moreover have "max_pallets truck \<le> B" using Cons.prems(5) by simp
  ultimately have b1: "assigned_pallets r1 \<le> B \<or> tr_stops r1 = []" by linarith
  have rest: "\<forall>t \<in> set trucks. max_pallets t \<le> B" using Cons.prems(5) by simp
  show ?case
  proof (cases "k = truck_id truck")
    case True
    then have "(m(truck_id truck \<mapsto> r1)) k = Some r1" by simp
    from Cons.IH [OF Cons.prems(1) rec this b1 rest] show ?thesis .
  next
    case False
    then have "(m(truck_id truck \<mapsto> r1)) k = Some r0" using Cons.prems(3) by simp
    from Cons.IH [OF Cons.prems(1) rec this Cons.prems(4) rest] show ?thesis .
  qed
qed

lemma route_loop_capacity:
  "respects_capacity solve \<Longrightarrow> route_loop solve dm cs trucks m A = Inr m'
     \<Longrightarrow> sorted (map (\<lambda>t. - max_pallets t) trucks) \<Longrightarrow> t \<in> set trucks
     \<Longrightarrow> \<exists>r. m' (truck_id t) = Some r
            \<and> (assigned_pallets r \<le> max_pallets t \<or> tr_stops r = [])"
proof (induction trucks arbitrary: m A)
  case Nil
  then show ?case by simp
next
  case (Cons truck trucks)
  from Cons.prems(2) obtain r1 A1 where
    rec: "route_loop solve dm cs trucks (m(truck_id truck \<mapsto> r1)) A1 = Inr m'"
    and r1: "r1 = create_empty_route truck
             \<or> (\<exists>available. optimize_truck_route solve truck available dm = Inr r1)"
    by (auto simp: Let_def split: option.splits if_splits sum.splits)
  show ?case
  proof (cases "t = truck")
    case True
    have b1: "assigned_pallets r1 \<le> max_pallets t \<or> tr_stops r1 = []"
      using r1 optimize_load [OF Cons.prems(1)] True by (auto simp: create_empty_route_def)
    have rest: "\<forall>x \<in> set trucks. max_pallets x \<le> max_pallets t"
      using Cons.prems(3) True by auto
    have "(m(truck_id truck \<mapsto> r1)) (truck_id t) = Some r1" using True by simp
    from route_loop_keep [OF Cons.prems(1) rec this b1 rest] show ?thesis .
  next
    case False
    then have "t \<in> set trucks" using Cons.prems(4) by simp
    moreover have "sorted (map (\<lambda>t. - max_pallets t) trucks)" using Cons.prems(3) by simp
    ultimately show ?thesis using Cons.IH [OF Cons.prems(1) rec] by blast
  qed
qed

text \<open>A solver for the examples: it visits the stops in the order given when they all fit.\<close>

definition visit_all :: solver where
  "visit_all truck stops =
     (if sum_list (map pallets stops) \<le> max_pallets truck
      then Some (map Suc [0 ..< length stops]) else None)"

lemma visited_pallets_all:
  "visited_pallets stops (map Suc [0 ..< length stops]) = sum_list (map pallets stops)"
proof -
  have "map (\<lambda>n. pallets (stops ! (n - 1))) (filter (\<lambda>n. 0 < n) (map Suc [0 ..< length stops]))
          = map pallets (map (\<lambda>i. stops ! i) [0 ..< length stops])"
    by (simp add: filter_map comp_def)
  also have "\<dots> = map pallets stops"
    by (simp only: map_nth)
  finally show ?thesis by (simp only: visited_pallets_def)
qed

lemma respects_capacity_visit_all: "respects_capacity visit_all"
proof -
  have "visited_pallets stops solution \<le> max_pallets truck"
    if "visit_all truck stops = Some solution" for truck stops solution
  proof -
    from that have "sum_list (map pallets stops) \<le> max_pallets truck"
      and "solution = map Suc [0 ..< length stops]"
      by (auto simp: visit_all_def split: if_splits)
    then show ?thesis by (simp only: visited_pallets_all)
  qed
  then show ?thesis unfolding respects_capacity_def by blast
qed

definition negative_truck :: Truck where
  "negative_truck = truck_a\<lparr>max_pallets := - 1\<rparr>"

text \<open>
  C1. For every truck whose \<^verbatim>\<open>max_pallets\<close> is not negative, the pallets of the stops on the
  truck's route in the map returned by \<^verbatim>\<open>route_trucks\<close> sum to at most \<^verbatim>\<open>max_pallets\<close>, on the
  solver path (for a solver that keeps its capacity dimension) and on the greedy path. A truck
  with a negative capacity gets the empty route, whose sum 0 exceeds the capacity.
\<close>

theorem route_within_capacity:
  assumes "respects_capacity solve"
    and "route_trucks solve dm stops trucks = Inr routes"
    and "t \<in> set trucks" and "0 \<le> max_pallets t"
  shows "\<exists>r. routes (truck_id t) = Some r \<and> assigned_pallets r \<le> max_pallets t"
proof -
  have "\<exists>r. routes (truck_id t) = Some r
          \<and> (assigned_pallets r \<le> max_pallets t \<or> tr_stops r = [])"
  proof (rule route_loop_capacity [OF assms(1)])
    show "route_loop solve dm (get_compatible_stops trucks stops Map.empty)
            (sort_key (\<lambda>t. - max_pallets t) trucks) Map.empty {} = Inr routes"
      using assms(2) by (simp add: route_trucks_def)
    show "sorted (map (\<lambda>t. - max_pallets t) (sort_key (\<lambda>t. - max_pallets t) trucks))"
      by (rule sorted_sort_key)
    show "t \<in> set (sort_key (\<lambda>t. - max_pallets t) trucks)"
      using assms(3) by simp
  qed
  then show ?thesis
    using assms(4) by (auto simp: assigned_pallets_def)
qed

theorem route_within_capacity_witness:
  "respects_capacity visit_all \<and> truck_b \<in> set [truck_b, truck_a] \<and> 0 \<le> max_pallets truck_b \<and>
   (case route_trucks visit_all Map.empty three_stops [truck_b, truck_a] of
       Inl e \<Rightarrow> False
     | Inr routes \<Rightarrow>
         (case routes ''B'' of None \<Rightarrow> False
          | Some r \<Rightarrow> map rs_stop_id (tr_stops r) = [3] \<and> assigned_pallets r \<le> 5))"
proof -
  have ev: "(case route_trucks visit_all Map.empty three_stops [truck_b, truck_a] of
       Inl e \<Rightarrow> False
     | Inr routes \<Rightarrow>
         (case routes ''B'' of None \<Rightarrow> False
          | Some r \<Rightarrow> map rs_stop_id (tr_stops r) = [3]))"
    by code_simp
  then obtain routes r where
    e: "route_trucks visit_all Map.empty three_stops [truck_b, truck_a] = Inr routes"
    and b: "routes ''B'' = Some r" and ids: "map rs_stop_id (tr_stops r) = [3]"
    by (auto split: sum.splits option.splits)
  have t: "truck_b \<in> set [truck_b, truck_a]" by simp
  have c: "0 \<le> max_pallets truck_b" by (simp add: truck_b_def truck_a_def)
  have k: "truck_id truck_b = ''B''" "max_pallets truck_b = 5"
    by (simp_all add: truck_b_def truck_a_def)
  from route_within_capacity [OF respects_capacity_visit_all e t c] b k
  have "assigned_pallets r \<le> 5" by simp
  with respects_capacity_visit_all t c e b ids show ?thesis by simp
qed

theorem empty_route_exceeds_negative_capacity:
  "route_trucks visit_all Map.empty [] [negative_truck]
     = Inr [''A'' \<mapsto> create_empty_route negative_truck] \<and>
   assigned_pallets (create_empty_route negative_truck) = 0 \<and>
   max_pallets negative_truck = - 1"
  by (simp add: route_trucks_def negative_truck_def truck_a_def create_empty_route_def
        assigned_pallets_def compatible_with_def)

section \<open>Arrival times and time windows\<close>

definition late_stop :: Stop where
  "late_stop = sample_stop\<lparr>time_window_start := Time 10 0, time_window_end := Time 12 0,
                           pallets := 6\<rparr>"

text \<open>
  C2. The claim puts every computed arrival inside the stop's time window. A truck whose
  shift starts at 08:00 and a stop whose window is 10:00 to 12:00, 50 miles away by the
  default distance at 45 mph: on the solver path (one stop, which the solver visits) and on
  the greedy path (two such stops exceed the capacity, the solver has no solution) the first
  arrival is 09:06, before the window opens. The greedy loop compares the arrival with the
  end of the window only, and the extraction walks the clock from the shift start instead of
  reading the solver's times.
\<close>

theorem arrival_before_window_opens:
  "visit_all truck_a [late_stop] = Some [1] \<and>
   map arrival_time
     (tr_stops (the (projr (route_trucks visit_all Map.empty [late_stop] [truck_a]) ''A'')))
     = [Time 9 6] \<and>
   visit_all truck_a [late_stop, late_stop\<lparr>stop_id := 2\<rparr>] = None \<and>
   map arrival_time
     (tr_stops (the (projr (route_trucks visit_all Map.empty
                              [late_stop, late_stop\<lparr>stop_id := 2\<rparr>] [truck_a]) ''A'')))
     = [Time 9 6] \<and>
   time_window_start late_stop = Time 10 0 \<and> shift_start truck_a = Time 8 0"
  by code_simp

section \<open>Stop enrichment and the stops CSV (services/natural\_language.py, utils/csv\_parser.py)\<close>

text \<open>
  Text helpers: \<^verbatim>\<open>word in text\<close>, \<^verbatim>\<open>str.lower\<close>, \<^verbatim>\<open>str.strip\<close>, \<^verbatim>\<open>str.split(sep)\<close> and
  \<^verbatim>\<open>int(text)\<close>. Strings are byte lists here: lowering acts on the ASCII letters, and
  \<^verbatim>\<open>int\<close> reads an optional sign and decimal digits between optional white space (digit
  separators and non-ASCII digits, which Python also accepts, are read as invalid).
\<close>

fun starts_with :: "string \<Rightarrow> string \<Rightarrow> bool" where
  "starts_with s [] = True"
| "starts_with [] (p # ps) = False"
| "starts_with (c # cs) (p # ps) = (c = p \<and> starts_with cs ps)"

fun contains :: "string \<Rightarrow> string \<Rightarrow> bool" where
  "contains [] word = (word = [])"
| "contains (c # cs) word = (starts_with (c # cs) word \<or> contains cs word)"

definition lower_char :: "char \<Rightarrow> char" where
  "lower_char c =
     (let n = (of_char c :: nat) in if 65 \<le> n \<and> n \<le> 90 then char_of (n + 32) else c)"

definition lower :: "string \<Rightarrow> string" where
  "lower s = map lower_char s"

definition is_space :: "char \<Rightarrow> bool" where
  "is_space c = (c \<in> {CHR '' '', CHR 0x09, CHR 0x0A, CHR 0x0B, CHR 0x0C, CHR 0x0D})"

definition strip :: "string \<Rightarrow> string" where
  "strip s = rev (dropWhile is_space (rev (dropWhile is_space s)))"

fun split_on :: "char \<Rightarrow> string \<Rightarrow> string list" where
  "split_on sep [] = [[]]"
| "split_on sep (c # cs) =
     (if c = sep then [] # split_on sep cs
      else (case split_on sep cs of [] \<Rightarrow> [[c]] | p # ps \<Rightarrow> (c # p) # ps))"

definition digit_value :: "char \<Rightarrow> nat option" where
  "digit_value c =
     (let n = (of_char c :: nat) in if 48 \<le> n \<and> n \<le> 57 then Some (n - 48) else None)"

fun digits_value :: "nat \<Rightarrow> string \<Rightarrow> nat option" where
  "digits_value acc [] = Some acc"
| "digits_value acc (c # cs) =
     (case digit_value c of None \<Rightarrow> None | Some d \<Rightarrow> digits_value (10 * acc + d) cs)"

definition int_of_string :: "string \<Rightarrow> int option" where
  "int_of_string s =
     (case strip s of
        [] \<Rightarrow> None
      | c # cs \<Rightarrow>
          (if c = CHR ''-'' then (if cs = [] then None else map_option (\<lambda>n. - int n) (digits_value 0 cs))
           else if c = CHR ''+'' then (if cs = [] then None else map_option int (digits_value 0 cs))
           else map_option int (digits_value 0 (c # cs))))"

text \<open>
  \<^verbatim>\<open>parse_time_window\<close>: any failure (a part count other than two, a text that is no
  integer, an hour or minute out of range) is re-raised as \<^verbatim>\<open>ValueError\<close>.
\<close>

definition parse_time_part :: "string \<Rightarrow> pytime option" where
  "parse_time_part s =
     (case split_on (CHR '':'') s of
        [h, m] \<Rightarrow>
          (case (int_of_string h, int_of_string m) of
             (Some hv, Some mv) \<Rightarrow>
               (case mk_time hv mv of Inr t \<Rightarrow> Some t | Inl e \<Rightarrow> None)
           | _ \<Rightarrow> None)
      | _ \<Rightarrow> None)"

definition parse_time_window :: "string \<Rightarrow> py_error + (pytime \<times> pytime)" where
  "parse_time_window time_str =
     (case split_on (CHR ''-'') time_str of
        [start_str, end_str] \<Rightarrow>
          (case (parse_time_part start_str, parse_time_part end_str) of
             (Some a, Some b) \<Rightarrow> Inr (a, b)
           | _ \<Rightarrow> Inl ValueError)
      | _ \<Rightarrow> Inl ValueError)"


text \<open>The dictionary that \<^verbatim>\<open>enrich_stop_data\<close> fills; an absent key is \<^verbatim>\<open>None\<close>.\<close>

record enriched_data =
  estimated_pallets :: "int option"
  ed_special_constraint :: "string option"
  suggested_time_window :: "string option"
  ed_service_time_minutes :: "int option"
  ai_reasoning :: "string option"

definition empty_data :: enriched_data where
  "empty_data =
     \<lparr>estimated_pallets = None, ed_special_constraint = None, suggested_time_window = None,
      ed_service_time_minutes = None, ai_reasoning = None\<rparr>"

text \<open>\<^verbatim>\<open>_rule_based_enrichment\<close>: each key is set from keywords in the address unless present.\<close>

definition any_word :: "string \<Rightarrow> string list \<Rightarrow> bool" where
  "any_word address_lower words = list_ex (contains address_lower) words"

definition rule_based_enrichment :: "string \<Rightarrow> enriched_data \<Rightarrow> enriched_data" where
  "rule_based_enrichment addr existing_data =
     (let address_lower = lower addr;
          d1 = (if estimated_pallets existing_data = None then
                  existing_data\<lparr>estimated_pallets := Some
                    (if any_word address_lower
                          [''walmart'', ''target'', ''costco'', ''store'', ''retail''] then 6
                     else if any_word address_lower
                          [''restaurant'', ''cafe'', ''diner'', ''kitchen''] then 4
                     else if any_word address_lower [''hospital'', ''clinic'', ''medical''] then 2
                     else if any_word address_lower
                          [''warehouse'', ''distribution'', ''depot''] then 12
                     else 3)\<rparr>
                else existing_data);
          d2 = (if ed_special_constraint d1 = None then
                  d1\<lparr>ed_special_constraint := Some
                    (if any_word address_lower [''restaurant'', ''food'', ''grocery'', ''fresh'']
                       then ''Refrigerated''
                     else if any_word address_lower [''pharmacy'', ''medical'', ''hospital'']
                       then ''Fragile''
                     else if any_word address_lower
                          [''warehouse'', ''industrial'', ''manufacturing'']
                       then ''Heavy''
                     else ''None'')\<rparr>
                else d1);
          d3 = (if suggested_time_window d2 = None then
                  d2\<lparr>suggested_time_window := Some
                    (if any_word address_lower [''restaurant'', ''cafe''] then ''06:00-11:00''
                     else if any_word address_lower [''office'', ''business''] then ''09:00-17:00''
                     else ''08:00-18:00'')\<rparr>
                else d2)
      in if ed_service_time_minutes d3 = None then d3\<lparr>ed_service_time_minutes := Some 15\<rparr>
         else d3)"

text \<open>
  \<^verbatim>\<open>enrich_stop_data(address)\<close> as the CSV parser calls it (no existing data). The language
  model is an argument: \<^verbatim>\<open>None\<close> when no API key is configured (\<^verbatim>\<open>use_llm\<close> false), otherwise
  a function whose answer \<^verbatim>\<open>None\<close> stands for a failed call or an unreadable reply, which the
  code logs and ignores. The rule-based step runs in every case.
\<close>

record ai_data =
  ai_estimated_pallets :: "int option"
  ai_special_constraint :: "string option"
  ai_suggested_time_window :: "string option"
  ai_service_time_minutes :: "int option"
  ai_confidence :: "rat option"
  ai_reasoning_text :: "string option"

definition or_default :: "'a option \<Rightarrow> 'a \<Rightarrow> 'a" where
  "or_default v d = (case v of None \<Rightarrow> d | Some x \<Rightarrow> x)"

definition enrich_stop_data :: "(string \<Rightarrow> ai_data option) option \<Rightarrow> string \<Rightarrow> enriched_data" where
  "enrich_stop_data llm addr =
     (let enriched =
            (case llm of
               None \<Rightarrow> empty_data
             | Some ask \<Rightarrow>
                 (case ask addr of
                    None \<Rightarrow> empty_data
                  | Some answer \<Rightarrow>
                      \<lparr>estimated_pallets = Some (or_default (ai_estimated_pallets answer) 3),
                       ed_special_constraint =
                         Some (or_default (ai_special_constraint answer) ''None''),
                       suggested_time_window =
                         Some (or_default (ai_suggested_time_window answer) ''08:00-17:00''),
                       ed_service_time_minutes =
                         Some (or_default (ai_service_time_minutes answer) 15),
                       ai_reasoning =
                         Some (or_default (ai_reasoning_text answer) ''AI analysis'')\<rparr>))
      in rule_based_enrichment addr enriched)"

text \<open>
  The parser works on the data frame that the CSV library returns, which is where the model
  starts: the column names, and per row a value for each column that is a text, a number or
  the missing value, together with the row's index label (\<^verbatim>\<open>idx\<close> in
  \<^verbatim>\<open>for idx, row in df.iterrows()\<close>). By default the library numbers the rows 0, 1, 2, ...;
  when the data rows have one field more than the header it takes the first field as the
  index instead, which is then an integer or a text. Labels of other kinds (floats, tuples
  of several leading fields) are left out.
\<close>

datatype cell = Text string | Number rat | NaN

datatype index_label = Int_label int | Text_label string

text \<open>\<^verbatim>\<open>idx + 1\<close>: adding 1 to a text raises \<^verbatim>\<open>TypeError\<close>.\<close>

definition label_plus_one :: "index_label \<Rightarrow> py_error + int" where
  "label_plus_one idx =
     (case idx of
        Int_label i \<Rightarrow> Inr (i + 1)
      | Text_label s \<Rightarrow> Inl TypeError)"

record column_mapping =
  cm_address :: "string option"
  cm_stop_id :: "string option"
  cm_time_window :: "string option"
  cm_pallets :: "string option"
  cm_special :: "string option"

text \<open>\<^verbatim>\<open>_detect_column_mapping\<close>: per role, the first column whose lowered name contains a keyword.\<close>

definition detect :: "string list \<Rightarrow> string list \<Rightarrow> string option" where
  "detect keywords columns = find (\<lambda>col. list_ex (contains (lower col)) keywords) columns"

definition detect_column_mapping :: "string list \<Rightarrow> column_mapping" where
  "detect_column_mapping columns =
     \<lparr>cm_address = detect [''address'', ''addr'', ''location'', ''destination''] columns,
      cm_stop_id = detect [''stopid'', ''stop_id'', ''id'', ''stop''] columns,
      cm_time_window = detect [''timewindow'', ''time_window'', ''window'', ''time''] columns,
      cm_pallets = detect [''pallets'', ''pallet'', ''quantity'', ''qty'', ''units''] columns,
      cm_special = detect [''special'', ''constraint'', ''type'', ''handling''] columns\<rparr>"

type_synonym row = "string \<Rightarrow> cell"

text \<open>
  The four field parsers. The text of a number has no colon and is no constraint name, so a
  numeric cell never parses as a window or a constraint. \<^verbatim>\<open>float(text)\<close> is an argument
  (\<^verbatim>\<open>float_of\<close>): \<^verbatim>\<open>int\<close> of an infinite float raises \<^verbatim>\<open>OverflowError\<close>, which
  \<^verbatim>\<open>_parse_pallets_flexible\<close> does not catch.
\<close>

definition extract_stop_id :: "row \<Rightarrow> column_mapping \<Rightarrow> index_label \<Rightarrow> py_error + int" where
  "extract_stop_id r m fallback_idx =
     (case cm_stop_id m of
        None \<Rightarrow> label_plus_one fallback_idx
      | Some col \<Rightarrow>
          (case r col of
             Text s \<Rightarrow>
               (case int_of_string s of
                  Some v \<Rightarrow> Inr v
                | None \<Rightarrow> label_plus_one fallback_idx)
           | Number x \<Rightarrow> Inr (py_int x)
           | NaN \<Rightarrow> label_plus_one fallback_idx))"

definition parse_time_window_flexible ::
  "row \<Rightarrow> column_mapping \<Rightarrow> enriched_data \<Rightarrow> pytime \<times> pytime" where
  "parse_time_window_flexible r m enriched =
     (let from_column =
            (case cm_time_window m of
               None \<Rightarrow> None
             | Some col \<Rightarrow>
                 (case r col of
                    Text s \<Rightarrow> (case parse_time_window s of Inr w \<Rightarrow> Some w | Inl e \<Rightarrow> None)
                  | Number x \<Rightarrow> None
                  | NaN \<Rightarrow> None))
      in case from_column of
           Some w \<Rightarrow> w
         | None \<Rightarrow>
             (case (case suggested_time_window enriched of
                      None \<Rightarrow> None
                    | Some s \<Rightarrow> (case parse_time_window s of Inr w \<Rightarrow> Some w | Inl e \<Rightarrow> None)) of
                Some w \<Rightarrow> w
              | None \<Rightarrow> (Time 8 0, Time 17 0)))"

datatype float_parse = Finite rat | Infinite | NotANumber | Invalid

definition parse_pallets_flexible ::
  "(string \<Rightarrow> float_parse) \<Rightarrow> row \<Rightarrow> column_mapping \<Rightarrow> enriched_data \<Rightarrow> py_error + int" where
  "parse_pallets_flexible float_of r m enriched =
     (let fallback = (case estimated_pallets enriched of Some p \<Rightarrow> p | None \<Rightarrow> 3) in
      case cm_pallets m of
        None \<Rightarrow> Inr fallback
      | Some col \<Rightarrow>
          (case r col of
             NaN \<Rightarrow> Inr fallback
           | Number x \<Rightarrow> Inr (py_int x)
           | Text s \<Rightarrow>
               (case float_of s of
                  Finite x \<Rightarrow> Inr (py_int x)
                | Infinite \<Rightarrow> Inl OverflowError
                | NotANumber \<Rightarrow> Inr fallback
                | Invalid \<Rightarrow> Inr fallback)))"

definition constraint_of_string :: "string \<Rightarrow> SpecialConstraint option" where
  "constraint_of_string s =
     (if s = ''None'' then Some SC_NONE
      else if s = ''Fragile'' then Some SC_FRAGILE
      else if s = ''Refrigerated'' then Some SC_REFRIGERATED
      else if s = ''Frozen'' then Some SC_FROZEN
      else if s = ''Hazmat'' then Some SC_HAZMAT
      else if s = ''Heavy'' then Some SC_HEAVY
      else None)"

definition parse_constraint_flexible ::
  "row \<Rightarrow> column_mapping \<Rightarrow> enriched_data \<Rightarrow> SpecialConstraint" where
  "parse_constraint_flexible r m enriched =
     (let from_column =
            (case cm_special m of
               None \<Rightarrow> None
             | Some col \<Rightarrow>
                 (case r col of
                    Text s \<Rightarrow> constraint_of_string (strip s)
                  | Number x \<Rightarrow> None
                  | NaN \<Rightarrow> None))
      in case from_column of
           Some c \<Rightarrow> c
         | None \<Rightarrow>
             (case (case ed_special_constraint enriched of
                      None \<Rightarrow> None | Some s \<Rightarrow> constraint_of_string s) of
                Some c \<Rightarrow> c
              | None \<Rightarrow> SC_NONE))"

text \<open>
  The body of the loop over the rows, in the order of the source: the stop id first, then
  the address, where \<^verbatim>\<open>.strip()\<close> on a value that is no text raises.
\<close>

definition parse_row ::
  "bool \<Rightarrow> (string \<Rightarrow> ai_data option) option \<Rightarrow> (string \<Rightarrow> float_parse) \<Rightarrow> column_mapping
     \<Rightarrow> string \<Rightarrow> index_label \<Rightarrow> row \<Rightarrow> py_error + Stop" where
  "parse_row auto_enrich llm float_of m address_column idx r =
     (case extract_stop_id r m idx of
        Inl e \<Rightarrow> Inl e
      | Inr sid \<Rightarrow>
          (case r address_column of
             Number x \<Rightarrow> Inl AttributeError
           | NaN \<Rightarrow> Inl AttributeError
           | Text a \<Rightarrow>
               (let addr = strip a;
                    enriched = (if auto_enrich then enrich_stop_data llm addr else empty_data);
                    (time_start, time_end) = parse_time_window_flexible r m enriched
                in case parse_pallets_flexible float_of r m enriched of
                     Inl e \<Rightarrow> Inl e
                   | Inr p \<Rightarrow>
                       Inr \<lparr>stop_id = sid,
                            address = addr,
                            time_window_start = time_start,
                            time_window_end = time_end,
                            pallets = p,
                            special_constraint = parse_constraint_flexible r m enriched,
                            service_time_minutes =
                              or_default (ed_service_time_minutes enriched) 15\<rparr>)))"

text \<open>
  The loop. A row that raises is logged and skipped; the handler formats the warning with
  \<^verbatim>\<open>idx + 1\<close>, so under a text label the handler raises itself, and that exception leaves
  the loop.
\<close>

fun parse_rows ::
  "bool \<Rightarrow> (string \<Rightarrow> ai_data option) option \<Rightarrow> (string \<Rightarrow> float_parse) \<Rightarrow> column_mapping
     \<Rightarrow> string \<Rightarrow> (index_label \<times> row) list \<Rightarrow> py_error + Stop list" where
  "parse_rows auto_enrich llm float_of m address_column [] = Inr []"
| "parse_rows auto_enrich llm float_of m address_column ((idx, r) # rest) =
     (case parse_row auto_enrich llm float_of m address_column idx r of
        Inl e \<Rightarrow>
          (case label_plus_one idx of
             Inl e' \<Rightarrow> Inl e'
           | Inr n \<Rightarrow> parse_rows auto_enrich llm float_of m address_column rest)
      | Inr stop \<Rightarrow>
          (case parse_rows auto_enrich llm float_of m address_column rest of
             Inl e \<Rightarrow> Inl e
           | Inr stops \<Rightarrow> Inr (stop # stops)))"

text \<open>
  \<^verbatim>\<open>parse_stops_csv\<close> on the data frame: its column names and its rows with their index
  labels. An exception that leaves the loop is logged and raised again.
\<close>

definition parse_stops_csv ::
  "bool \<Rightarrow> (string \<Rightarrow> ai_data option) option \<Rightarrow> (string \<Rightarrow> float_parse)
     \<Rightarrow> string list \<Rightarrow> (index_label \<times> row) list \<Rightarrow> py_error + Stop list" where
  "parse_stops_csv auto_enrich llm float_of columns rows =
     (let column_mapping = detect_column_mapping columns in
      case cm_address column_mapping of
        None \<Rightarrow> Inl ValueError
      | Some address_column \<Rightarrow>
          parse_rows auto_enrich llm float_of column_mapping address_column rows)"


section \<open>A CSV with an address column only\<close>


definition address_row :: "string \<Rightarrow> row" where
  "address_row a = (\<lambda>col. if col = ''address'' then Text a else NaN)"

definition no_float :: "string \<Rightarrow> float_parse" where
  "no_float s = Invalid"





text \<open>
  The file \<^verbatim>\<open>address\<close>, \<^verbatim>\<open>12 Elm St, Atlanta\<close>: the data row has two fields under a header
  of one, so the first field becomes the index label and the address column holds the second.
\<close>

lemma text_index_raises:
  "parse_stops_csv False None no_float [''address'']
       [(Text_label ''12 Elm St'', address_row '' Atlanta'')]
     = Inl TypeError"
  by code_simp

section \<open>API keys (saas/auth/api\_keys.py, saas/database/models.py)\<close>




datatype http_error = HTTP_404 | HTTP_400 | HTTP_500



















section \<open>Create, validate, revoke\<close>














section \<open>Live re-routing (app/main.py)\<close>

text \<open>
  The \<^verbatim>\<open>changes\<close> of a request: a dict from the kind of change to a dict of its details.
  The details are kept as the text the impact analysis prints.
\<close>

type_synonym changes = "string \<rightharpoonup> (string \<rightharpoonup> string)"

record ReRoutingRequest =
  rq_original_routes :: "TruckRoute list"
  rq_stops :: "Stop list"
  rq_trucks :: "Truck list"
  rq_changes :: changes
  rq_reason :: "string option"

text \<open>
  A line of the impact analysis, by its content: the source formats each of them into one
  line of text and joins the lines.
\<close>

datatype impact_line =
  Cancelled_stop string
  | Added_stop string
  | Delayed_stop string string
  | Distance_change rat
  | Cost_change rat
  | Trucks_adjusted nat

text \<open>
  \<^verbatim>\<open>_analyze_rerouting_impact(original_routes, new_routes, changes)\<close>. Reading a missing key
  of a dict raises \<^verbatim>\<open>KeyError\<close>.
\<close>

definition analyze_rerouting_impact ::
  "TruckRoute list \<Rightarrow> TruckRoute list \<Rightarrow> changes \<Rightarrow> py_error + impact_line list" where
  "analyze_rerouting_impact original_routes new_routes changes =
     (let original_miles = sum_list (map total_miles original_routes);
          new_miles = sum_list (map total_miles new_routes);
          miles_change = new_miles - original_miles;
          original_cost = sum_list (map fuel_estimate original_routes);
          new_cost = sum_list (map fuel_estimate new_routes);
          cost_change = new_cost - original_cost;
          cancelled =
            (case changes ''cancel_stop'' of
               None \<Rightarrow> Inr []
             | Some cancel \<Rightarrow>
                 (case cancel ''stop_id'' of
                    None \<Rightarrow> Inl KeyError
                  | Some i \<Rightarrow> Inr [Cancelled_stop i]));
          added =
            (case changes ''add_stop'' of
               None \<Rightarrow> Inr []
             | Some new_stop \<Rightarrow>
                 (case new_stop ''stop_id'' of
                    None \<Rightarrow> Inl KeyError
                  | Some i \<Rightarrow> Inr [Added_stop i]));
          delayed =
            (case changes ''delay_stop'' of
               None \<Rightarrow> Inr []
             | Some delay_info \<Rightarrow>
                 (case delay_info ''stop_id'' of
                    None \<Rightarrow> Inl KeyError
                  | Some i \<Rightarrow>
                      (case delay_info ''new_time_window'' of
                         None \<Rightarrow> Inl KeyError
                       | Some w \<Rightarrow> Inr [Delayed_stop i w])));
          affected_count =
            length (filter
              (\<lambda>r. tr_truck_id r \<in> set (map tr_truck_id
                       (filter (\<lambda>orig. total_miles orig \<noteq> total_miles r) original_routes)))
              new_routes)
      in case cancelled of
           Inl e \<Rightarrow> Inl e
         | Inr lines1 \<Rightarrow>
             (case added of
                Inl e \<Rightarrow> Inl e
              | Inr lines2 \<Rightarrow>
                  (case delayed of
                     Inl e \<Rightarrow> Inl e
                   | Inr lines3 \<Rightarrow>
                       Inr (lines1 @ lines2 @ lines3 @
                            [Distance_change miles_change, Cost_change cost_change,
                             Trucks_adjusted affected_count]))))"

text \<open>
  A call of \<^verbatim>\<open>_analyze_rerouting_impact\<close> with positional arguments. The function has three
  parameters, none with a default, and takes no \<^verbatim>\<open>*args\<close>: Python raises \<^verbatim>\<open>TypeError\<close> for
  any other number of arguments, before the body runs.
\<close>

datatype argument =
  Routes_arg "TruckRoute list"
  | Changes_arg changes
  | Change_log_arg "string list"

definition call_analyze_rerouting_impact :: "argument list \<Rightarrow> py_error + impact_line list" where
  "call_analyze_rerouting_impact args =
     (case args of
        [Routes_arg original_routes, Routes_arg new_routes, Changes_arg changes] \<Rightarrow>
          analyze_rerouting_impact original_routes new_routes changes
      | [_, _, _] \<Rightarrow> Inl AttributeError
      | _ \<Rightarrow> Inl TypeError)"

record RoutingResponse =
  resp_routes :: "TruckRoute list"
  resp_unassigned_stops :: "int list"
  resp_total_miles :: rat
  resp_total_fuel_cost :: rat
  resp_average_utilization :: rat
  resp_routing_time_seconds :: rat
  resp_summary :: string
  resp_impact_analysis :: "impact_line list"

text \<open>
  What the first half of \<^verbatim>\<open>live_rerouting\<close> hands to the second: the stops after the
  changes, the merged routes and the change log.
\<close>

record rerouted =
  modified_stops :: "Stop list"
  final_routes :: "TruckRoute list"
  change_log :: "string list"

text \<open>
  \<^verbatim>\<open>live_rerouting\<close>, from the impact analysis on. The first half of the endpoint
  (\<^verbatim>\<open>_apply_routing_changes\<close>, the re-optimisation of the affected trucks and the merge of
  the routes) enters as its outcome, a value of type \<^typ>\<open>rerouted\<close> or the exception it
  raised; the summary text of the language processor and the elapsed time are arguments as
  well. Every exception inside the endpoint is turned into a 500.
\<close>

definition live_rerouting ::
  "(TruckRoute list \<Rightarrow> int list \<Rightarrow> Stop list \<Rightarrow> Truck list \<Rightarrow> py_error + string) \<Rightarrow> rat
     \<Rightarrow> py_error + rerouted \<Rightarrow> ReRoutingRequest \<Rightarrow> http_error + RoutingResponse" where
  "live_rerouting generate_routing_summary routing_time first_half request =
     (case first_half of
        Inl e \<Rightarrow> Inl HTTP_500
      | Inr r \<Rightarrow>
          (case call_analyze_rerouting_impact
                  [Routes_arg (rq_original_routes request), Routes_arg (final_routes r),
                   Changes_arg (rq_changes request), Change_log_arg (change_log r)] of
             Inl e \<Rightarrow> Inl HTTP_500
           | Inr impact_analysis \<Rightarrow>
               (let assigned_stop_ids =
                      set (concat (map (\<lambda>route. map rs_stop_id (tr_stops route))
                                       (final_routes r)));
                    unassigned_stops =
                      map stop_id
                        (filter (\<lambda>s. stop_id s \<notin> assigned_stop_ids) (modified_stops r));
                    total_miles_sum = sum_list (map total_miles (final_routes r));
                    total_fuel_cost = sum_list (map fuel_estimate (final_routes r));
                    avg_utilization =
                      (if final_routes r \<noteq> []
                       then sum_list (map utilization_percent (final_routes r))
                              / of_nat (length (final_routes r))
                       else 0)
                in case generate_routing_summary (final_routes r) unassigned_stops
                          (modified_stops r) (rq_trucks request) of
                     Inl e \<Rightarrow> Inl HTTP_500
                   | Inr summary \<Rightarrow>
                       Inr \<lparr>resp_routes = final_routes r,
                            resp_unassigned_stops = unassigned_stops,
                            resp_total_miles = py_round 1 total_miles_sum,
                            resp_total_fuel_cost = py_round 2 total_fuel_cost,
                            resp_average_utilization = py_round 1 avg_utilization,
                            resp_routing_time_seconds = py_round 2 routing_time,
                            resp_summary = summary,
                            resp_impact_analysis = impact_analysis\<rparr>)))"

section \<open>The impact analysis of a re-routing\<close>

text \<open>Called with its three arguments, the impact analysis lists the change and the deltas.\<close>

lemma impact_of_a_cancellation:
  "call_analyze_rerouting_impact
     [Routes_arg [], Routes_arg [], Changes_arg [''cancel_stop'' \<mapsto> [''stop_id'' \<mapsto> ''1'']]]
   = Inr [Cancelled_stop ''1'', Distance_change 0, Cost_change 0, Trucks_adjusted 0]"
  by (simp add: call_analyze_rerouting_impact_def analyze_rerouting_impact_def)

lemma call_with_four_arguments:
  "call_analyze_rerouting_impact [a, b, c, d] = Inl TypeError"
  by (simp add: call_analyze_rerouting_impact_def split: list.splits argument.splits)

text \<open>
  C4. The endpoint passes four arguments (the change log is the fourth) to a function of three
  parameters, so every re-routing request, whatever its changes and whatever the first half
  of the endpoint computed, ends in the error response 500 and no impact analysis is returned.
\<close>

theorem live_rerouting_always_fails:
  "live_rerouting generate_routing_summary routing_time first_half request = Inl HTTP_500"
  by (simp add: live_rerouting_def call_with_four_arguments split: sum.splits)

end
